theory Spec2Isabelle
  imports
    Complex_Main
    "HOL-Library.Sublist"
    "HOL-Library.Char_ord"
    "HOL-Library.List_Lexorder"
    "HOL-Library.Log_Nat"
begin

section \<open>JavaScript strings and arrays, as far as the pipeline uses them\<close>

text \<open>
  Strings are \<^typ>\<open>string\<close> (lists of 8-bit characters). The source runs on UTF-16 strings;
  the embedding is exact on ASCII text, which is where every rule of the source that looks
  at single characters (\<open>\w\<close>, \<open>\s\<close>, \<open>toLowerCase\<close>, digits) is decided here. Characters
  above 127 are neither word characters nor white space nor letters with a case.
\<close>

definition toLowerChar :: "char \<Rightarrow> char" where
  "toLowerChar c =
     (let n = (of_char c :: nat) in if 65 \<le> n \<and> n \<le> 90 then char_of (n + 32) else c)"

definition toLowerCase :: "string \<Rightarrow> string" where
  "toLowerCase s = map toLowerChar s"

definition isDigit :: "char \<Rightarrow> bool" where
  "isDigit c = (let n = (of_char c :: nat) in 48 \<le> n \<and> n \<le> 57)"

definition isWordChar :: "char \<Rightarrow> bool" where
  \<comment> \<open>the regular-expression class \<open>\w\<close>: letters, digits and the underscore\<close>
  "isWordChar c =
     (let n = (of_char c :: nat)
      in (48 \<le> n \<and> n \<le> 57) \<or> (65 \<le> n \<and> n \<le> 90) \<or> (97 \<le> n \<and> n \<le> 122) \<or> n = 95)"

definition isSpace :: "char \<Rightarrow> bool" where
  \<comment> \<open>the class \<open>\s\<close> on ASCII: tab, line feed, vertical tab, form feed, carriage return, space\<close>
  "isSpace c = (let n = (of_char c :: nat) in (9 \<le> n \<and> n \<le> 13) \<or> n = 32)"

definition startsWith :: "string \<Rightarrow> string \<Rightarrow> bool" where
  "startsWith s p = prefix p s"

definition endsWith :: "string \<Rightarrow> string \<Rightarrow> bool" where
  "endsWith s p = suffix p s"

fun includes_str :: "string \<Rightarrow> string \<Rightarrow> bool" where
  "includes_str [] p = (p = [])"
| "includes_str (c # cs) p = (prefix p (c # cs) \<or> includes_str cs p)"

definition trim :: "string \<Rightarrow> string" where
  "trim s = rev (dropWhile isSpace (rev (dropWhile isSpace s)))"

text \<open>\<open>s.split(c)\<close> for a one-character separator: the fields between the separators,
  empty ones included, so the result is never the empty list.\<close>

fun splitOn :: "char \<Rightarrow> string \<Rightarrow> string list" where
  "splitOn sep [] = [[]]"
| "splitOn sep (c # cs) =
     (if c = sep then [] # splitOn sep cs
      else (case splitOn sep cs of
              [] \<Rightarrow> [[c]]
            | f # fs \<Rightarrow> (c # f) # fs))"

text \<open>\<open>xs.join(sep)\<close>.\<close>

fun join :: "string \<Rightarrow> string list \<Rightarrow> string" where
  "join sep [] = []"
| "join sep [x] = x"
| "join sep (x # y # ys) = x @ sep @ join sep (y # ys)"

text \<open>\<open>[...new Set(xs)]\<close>: a set keeps its elements in the order of first insertion.\<close>

fun setInsertAll :: "'a list \<Rightarrow> 'a list \<Rightarrow> 'a list" where
  "setInsertAll acc [] = acc"
| "setInsertAll acc (x # xs) = setInsertAll (if x \<in> set acc then acc else acc @ [x]) xs"

definition newSet :: "'a list \<Rightarrow> 'a list" where
  "newSet xs = setInsertAll [] xs"


section \<open>Query refiner: \<open>QueryRefiner.buildRefinedQueries\<close>\<close>

datatype strategy = expand | narrow | pivot

text \<open>The three loops push one query per selected term; \<open>expand\<close> and \<open>pivot\<close> add one
  combined query when at least two terms are selected.\<close>

definition buildRefinedQueries :: "string \<Rightarrow> string list \<Rightarrow> strategy \<Rightarrow> string list" where
  "buildRefinedQueries originalQuery selectedTerms strat =
     newSet
       (case strat of
          expand \<Rightarrow>
            map (\<lambda>term. originalQuery @ '' '' @ term) selectedTerms @
            (if length selectedTerms \<ge> 2
             then [originalQuery @ '' '' @ join '' '' (take 2 selectedTerms)] else [])
        | narrow \<Rightarrow>
            map (\<lambda>term. [CHR 0x22] @ originalQuery @ [CHR 0x22] @ '' '' @
                         [CHR 0x22] @ term @ [CHR 0x22]) selectedTerms
        | pivot \<Rightarrow>
            selectedTerms @
            (if length selectedTerms \<ge> 2 then [join '' '' selectedTerms] else []))"


section \<open>Interactive search: \<open>InteractiveSearch.parseSelection\<close>\<close>

text \<open>
  The source computes with doubles. The numbers that occur in \<open>parseSelection\<close> are \<open>NaN\<close>,
  the two infinities and integers that a double holds. \<open>roundToDouble\<close> rounds a
  mathematical integer to the nearest double: integers below \<open>2^53\<close> in absolute value are
  exact, a larger one keeps its 53 leading binary digits, rounded to nearest with ties to
  the even significand, and the result is an infinity from \<open>2^1024\<close> on.
\<close>

datatype number = NaN | Finite int | PosInfinity | NegInfinity

definition roundToDouble :: "int \<Rightarrow> number" where
  "roundToDouble v =
     (let m = nat \<bar>v\<bar>
      in if m < 2 ^ 53 then Finite v
         else (let e = floorlog 2 m - 53;
                   q = m div 2 ^ e;
                   r = m mod 2 ^ e;
                   q' = (if 2 * r > 2 ^ e \<or> (2 * r = 2 ^ e \<and> odd q) then q + 1 else q);
                   w = int (q' * 2 ^ e)
               in if w \<ge> 2 ^ 1024 then (if v < 0 then NegInfinity else PosInfinity)
                  else Finite (if v < 0 then - w else w)))"

text \<open>\<open>x <= y\<close>, the truth value of a number, \<open>isNaN\<close> and \<open>x++\<close> on these numbers.\<close>

fun numLe :: "number \<Rightarrow> number \<Rightarrow> bool" where
  "numLe NaN y = False"
| "numLe x NaN = False"
| "numLe NegInfinity y = True"
| "numLe x PosInfinity = True"
| "numLe (Finite a) (Finite b) = (a \<le> b)"
| "numLe PosInfinity y = False"
| "numLe x NegInfinity = False"

fun numTruthy :: "number \<Rightarrow> bool" where
  "numTruthy NaN = False"
| "numTruthy (Finite n) = (n \<noteq> 0)"
| "numTruthy PosInfinity = True"
| "numTruthy NegInfinity = True"

fun isNaN :: "number \<Rightarrow> bool" where
  "isNaN NaN = True"
| "isNaN x = False"

fun increment :: "number \<Rightarrow> number" where
  "increment (Finite n) = roundToDouble (n + 1)"
| "increment x = x"

text \<open>
  \<open>parseInt(s, 10)\<close>: leading white space is skipped, one sign is read, then the longest run
  of decimal digits; the result is \<open>NaN\<close> when there is no digit, and otherwise the double
  nearest to the number the digits denote. What follows the digits is not looked at.
\<close>

definition digitVal :: "char \<Rightarrow> int" where
  "digitVal c = int (of_char c) - 48"

definition digitsVal :: "string \<Rightarrow> int" where
  "digitsVal ds = foldl (\<lambda>acc d. 10 * acc + digitVal d) 0 ds"

definition parseInt :: "string \<Rightarrow> number" where
  "parseInt s =
     (let t = dropWhile isSpace s;
          (neg, u) = (case t of
                        c # cs \<Rightarrow> if c = CHR ''-'' then (True, cs)
                                  else if c = CHR ''+'' then (False, cs) else (False, t)
                      | [] \<Rightarrow> (False, t));
          ds = takeWhile isDigit u
      in if ds = [] then NaN
         else roundToDouble (if neg then - digitsVal ds else digitsVal ds))"

text \<open>
  What \<open>parseSelection\<close> can throw. An array holds at most \<open>2^32 - 1\<close> elements, and \<open>push\<close>
  on a full array throws a \<open>RangeError\<close>; \<open>split\<close> without a limit stops at that many
  fields. The engine (V8) lets a \<open>Set\<close> hold at most \<open>2^24\<close> elements and throws a
  \<open>RangeError\<close> on the next one.
\<close>

datatype range_error = InvalidArrayLength | SetMaximumSizeExceeded

definition maxArrayLength :: nat where
  "maxArrayLength = 4294967295"

definition maxSetSize :: nat where
  "maxSetSize = 16777216"

definition push :: "int list \<Rightarrow> int \<Rightarrow> range_error + int list" where
  "push numbers n =
     (if length numbers \<ge> maxArrayLength then Inl InvalidArrayLength else Inr (numbers @ [n]))"

text \<open>
  The \<open>for\<close> loop of a range: \<open>i\<close> runs from \<open>start\<close> while \<open>i <= end && i <= max\<close>, and
  \<open>i\<close> is pushed when \<open>i >= 1\<close>. The loop need not end by its condition: where \<open>i++\<close> rounds
  back to \<open>i\<close> it goes on until \<open>push\<close> throws, or for ever when nothing is pushed; \<open>None\<close>
  is a run that never returns.
\<close>

partial_function (option) rangeLoop ::
  "number \<Rightarrow> number \<Rightarrow> int \<Rightarrow> int list \<Rightarrow> (range_error + int list) option" where
  "rangeLoop i en mx numbers =
     (if numLe i en \<and> numLe i (Finite mx)
      then (case i of
              Finite n \<Rightarrow>
                if n \<ge> 1
                then (case push numbers n of
                        Inl err \<Rightarrow> Some (Inl err)
                      | Inr numbers' \<Rightarrow> rangeLoop (increment i) en mx numbers')
                else rangeLoop (increment i) en mx numbers
            | _ \<Rightarrow> rangeLoop (increment i) en mx numbers)
      else Some (Inr numbers))"

text \<open>One comma-separated part. In the range branch \<open>start && end\<close> is false for \<open>NaN\<close> and
  for 0; the destructuring takes the first two fields of the split.\<close>

definition parsePart :: "int \<Rightarrow> int list \<Rightarrow> string \<Rightarrow> (range_error + int list) option" where
  "parsePart mx numbers part =
     (if includes_str part ''-''
      then (case map (\<lambda>n. parseInt (trim n)) (splitOn CHR ''-'' part) of
              start # en # _ \<Rightarrow>
                if numTruthy start \<and> numTruthy en \<and> \<not> isNaN start \<and> \<not> isNaN en
                then rangeLoop start en mx numbers else Some (Inr numbers)
            | _ \<Rightarrow> Some (Inr numbers))
      else (case parseInt part of
              Finite num \<Rightarrow> if num \<ge> 1 \<and> num \<le> mx then Some (push numbers num)
                            else Some (Inr numbers)
            | _ \<Rightarrow> Some (Inr numbers)))"

text \<open>The loop over the parts, which stops at the first part that throws or does not
  return.\<close>

fun partsLoop :: "int \<Rightarrow> string list \<Rightarrow> int list \<Rightarrow> (range_error + int list) option" where
  "partsLoop mx [] numbers = Some (Inr numbers)"
| "partsLoop mx (part # parts) numbers =
     (case parsePart mx numbers part of
        None \<Rightarrow> None
      | Some (Inl err) \<Rightarrow> Some (Inl err)
      | Some (Inr numbers') \<Rightarrow> partsLoop mx parts numbers')"

definition parseSelection :: "string \<Rightarrow> int \<Rightarrow> (range_error + int list) option" where
  "parseSelection input mx =
     (let parts = map trim (take maxArrayLength (splitOn CHR '','' input))
      in case partsLoop mx parts [] of
           None \<Rightarrow> None
         | Some (Inl err) \<Rightarrow> Some (Inl err)
         | Some (Inr numbers) \<Rightarrow>
             (let distinctNumbers = newSet numbers
              in if length distinctNumbers > maxSetSize then Some (Inl SetMaximumSizeExceeded)
                 else Some (Inr (sort distinctNumbers))))"


section \<open>Data model (\<open>providers/types.ts\<close>)\<close>

datatype ProviderName = brave | duckduckgo | serp | rss

fun providerTag :: "ProviderName \<Rightarrow> string" where
  "providerTag brave = ''brave''"
| "providerTag duckduckgo = ''duckduckgo''"
| "providerTag serp = ''serp''"
| "providerTag rss = ''rss''"

text \<open>
  The values of the open metadata bag (\<open>Record<string, unknown>\<close>). Arrays and objects are
  references: two bags can hold the same array, and \<open>push\<close> is seen through both.
\<close>

type_synonym ref = nat

datatype jsval =
    JUndefined | JNull | JBool bool | JNum real | JNaN | JStr string | JArr ref | JObj ref

fun truthy :: "jsval \<Rightarrow> bool" where
  "truthy JUndefined = False"
| "truthy JNull = False"
| "truthy (JBool b) = b"
| "truthy (JNum x) = (x \<noteq> 0)"
| "truthy JNaN = False"
| "truthy (JStr s) = (s \<noteq> [])"
| "truthy (JArr r) = True"
| "truthy (JObj r) = True"

type_synonym metadata_bag = "string \<rightharpoonup> jsval"

text \<open>\<open>timestamp\<close> is the \<open>Date\<close>'s time value, in milliseconds.\<close>

record SearchResult =
  url :: string
  title :: string
  snippet :: string
  source :: ProviderName
  timestamp :: int
  metadata :: "metadata_bag option"

record ScoredResult = SearchResult +
  score :: real


section \<open>The platform's \<open>URL\<close> class\<close>

text \<open>
  The source reads four components of a parsed URL and clears a fifth. \<open>new URL(s)\<close> either
  yields such an object or throws; a parser is a function to \<^typ>\<open>'a option\<close>, and every
  function of the source that parses takes the parser as its first argument.
\<close>

record URL =
  protocol :: string
  hostname :: string
  pathname :: string
  searchParams :: "(string \<times> string) list"
  hash :: string

type_synonym url_parser = "string \<Rightarrow> URL option"

text \<open>\<open>searchParams.delete(name)\<close>, \<open>searchParams.sort()\<close> (stable, by name) and
  \<open>searchParams.toString()\<close> (the form-urlencoded serialiser: letters, digits and \<open>*-._\<close>
  stay, a space becomes \<open>+\<close>, every other byte becomes \<open>%XX\<close>).\<close>

definition searchParams_delete :: "string \<Rightarrow> (string \<times> string) list \<Rightarrow> (string \<times> string) list" where
  "searchParams_delete name ps = filter (\<lambda>p. fst p \<noteq> name) ps"

definition searchParams_sort :: "(string \<times> string) list \<Rightarrow> (string \<times> string) list" where
  "searchParams_sort ps = sort_key fst ps"

definition hexDigit :: "nat \<Rightarrow> char" where
  "hexDigit n = (if n < 10 then char_of (48 + n) else char_of (55 + n))"

definition urlencodeChar :: "char \<Rightarrow> string" where
  "urlencodeChar c =
     (if isWordChar c \<or> c = CHR ''*'' \<or> c = CHR ''-'' \<or> c = CHR ''.'' then [c]
      else if c = CHR '' '' then ''+''
      else (let n = (of_char c :: nat) in [CHR ''%'', hexDigit (n div 16), hexDigit (n mod 16)]))"

definition urlencode :: "string \<Rightarrow> string" where
  "urlencode s = concat (map urlencodeChar s)"

definition searchParams_toString :: "(string \<times> string) list \<Rightarrow> string" where
  "searchParams_toString ps = join ''&'' (map (\<lambda>(k, v). urlencode k @ ''='' @ urlencode v) ps)"

text \<open>
  A concrete parser, for evaluating the pipeline on concrete URLs. It reads the plain
  \<open>http\<close> and \<open>https\<close> URLs \<open>scheme://host[:port][/path][?query][#fragment]\<close> whose characters
  are letters, digits and \<open>-._*:/?#&=\<close>, whose host labels are non-empty, free of the
  \<open>xn--\<close> prefix and end in a label that starts with a letter, and whose path has no \<open>.\<close> or
  \<open>..\<close> segment; on these the platform's parser does no percent-encoding, no address
  parsing and no path rewriting, and returns the components computed here. A string
  with no scheme (no colon at all) is rejected by the platform's parser as it is here.
  Other inputs are outside what this parser describes; no theorem evaluates it there.
\<close>

definition urlChar :: "char \<Rightarrow> bool" where
  "urlChar c = (isWordChar c \<or> c \<in> set ''-.*:/?#&='')"

definition isAlpha :: "char \<Rightarrow> bool" where
  "isAlpha c = (let n = (of_char c :: nat) in (65 \<le> n \<and> n \<le> 90) \<or> (97 \<le> n \<and> n \<le> 122))"

definition hostLabelOk :: "string \<Rightarrow> bool" where
  "hostLabelOk l =
     (l \<noteq> [] \<and> list_all (\<lambda>c. isAlpha c \<or> isDigit c \<or> c = CHR ''-'') l \<and>
      \<not> prefix ''xn--'' (toLowerCase l))"

definition hostOk :: "string \<Rightarrow> bool" where
  "hostOk h =
     (let labels = splitOn CHR ''.'' h
      in list_all hostLabelOk labels \<and> isAlpha (hd (last labels)))"

definition portOk :: "string \<Rightarrow> bool" where
  "portOk p = (p \<noteq> [] \<and> list_all isDigit p \<and> length p \<le> 5 \<and> digitsVal p \<le> 65535)"

definition parseQuery :: "string \<Rightarrow> (string \<times> string) list" where
  "parseQuery q =
     map (\<lambda>f. (takeWhile (\<lambda>c. c \<noteq> CHR ''='') f, drop 1 (dropWhile (\<lambda>c. c \<noteq> CHR ''='') f)))
         (filter (\<lambda>f. f \<noteq> []) (splitOn CHR ''&'' q))"

definition parseURL :: url_parser where
  "parseURL input =
     (let scheme = toLowerCase (takeWhile (\<lambda>c. c \<noteq> CHR '':'') input);
          afterScheme = dropWhile (\<lambda>c. c \<noteq> CHR '':'') input
      in if \<not> list_all urlChar input \<or> \<not> (scheme = ''http'' \<or> scheme = ''https'')
            \<or> \<not> prefix ''://'' afterScheme
         then None
         else
           (let rest = drop 3 afterScheme;
                authority = takeWhile (\<lambda>c. c \<notin> set ''/?#'') rest;
                afterAuthority = dropWhile (\<lambda>c. c \<notin> set ''/?#'') rest;
                host = takeWhile (\<lambda>c. c \<noteq> CHR '':'') authority;
                portPart = dropWhile (\<lambda>c. c \<noteq> CHR '':'') authority;
                path = takeWhile (\<lambda>c. c \<notin> set ''?#'') afterAuthority;
                afterPath = dropWhile (\<lambda>c. c \<notin> set ''?#'') afterAuthority;
                query = (if prefix ''?'' afterPath
                         then takeWhile (\<lambda>c. c \<noteq> CHR ''#'') (drop 1 afterPath) else []);
                fragment = drop 1 (dropWhile (\<lambda>c. c \<noteq> CHR ''#'') afterPath)
            in if \<not> hostOk host \<or> (portPart \<noteq> [] \<and> \<not> portOk (drop 1 portPart))
                  \<or> list_ex (\<lambda>seg. seg = ''.'' \<or> seg = ''..'') (splitOn CHR ''/'' path)
               then None
               else Some \<lparr> protocol = scheme @ '':'',
                           hostname = toLowerCase host,
                           pathname = (if path = [] then ''/'' else path),
                           searchParams = parseQuery query,
                           hash = (if fragment = [] then [] else CHR ''#'' # fragment) \<rparr>))"


section \<open>Heuristic scorer (\<open>Scorer\<close>)\<close>

record ScoringWeights =
  recency :: real
  domainAuthority :: real
  keywordRelevance :: real

record ScoringConfig =
  weights :: ScoringWeights
  trustedDomains :: "string list"

text \<open>\<open>s.split(/\s+/)\<close>: the fields between maximal runs of white space, empty ones at the
  ends included.\<close>

function splitWs :: "string \<Rightarrow> string list" where
  "splitWs [] = [[]]"
| "splitWs (c # cs) =
     (if isSpace c then [] # splitWs (dropWhile isSpace cs)
      else (case splitWs cs of
              [] \<Rightarrow> [[c]]
            | f # fs \<Rightarrow> (c # f) # fs))"
  by pat_completeness auto
termination
  by (relation "measure length") (auto simp: less_Suc_eq_le length_dropWhile_le)

text \<open>\<open>s.replace(/[^\w\s]/g, ' ')\<close>.\<close>

definition replaceNonWord :: "string \<Rightarrow> string" where
  "replaceNonWord s = map (\<lambda>c. if isWordChar c \<or> isSpace c then c else CHR '' '') s"

text \<open>\<open>s.replace(pat, rep)\<close> with a string pattern: the first occurrence only.\<close>

fun replaceFirst :: "string \<Rightarrow> string \<Rightarrow> string \<Rightarrow> string" where
  "replaceFirst pat rep [] = (if pat = [] then rep else [])"
| "replaceFirst pat rep (c # cs) =
     (if prefix pat (c # cs) then rep @ drop (length pat) (c # cs)
      else c # replaceFirst pat rep cs)"

definition Scorer_tokenize :: "string \<Rightarrow> string list" where
  "Scorer_tokenize text = filter (\<lambda>word. length word > 2) (splitWs (replaceNonWord (toLowerCase text)))"

text \<open>\<open>now\<close> is the value of \<open>Date.now()\<close> at the call.\<close>

definition recencyScore :: "int \<Rightarrow> int \<Rightarrow> real" where
  "recencyScore now ts =
     (let age = real_of_int (now - ts);
          daysSince = age / (1000 * 60 * 60 * 24)
      in max 0.1 (1 - daysSince / 365))"

definition qualityDomains :: "string list" where
  "qualityDomains = [''nature.com'', ''science.org'', ''arxiv.org'', ''medium.com'', ''dev.to'',
     ''hackernews.com'', ''techcrunch.com'', ''wired.com'', ''arstechnica.com'']"

definition domainScore :: "url_parser \<Rightarrow> ScoringConfig \<Rightarrow> string \<Rightarrow> real" where
  "domainScore parse config u =
     (case parse u of
        None \<Rightarrow> 0.3
      | Some parsed \<Rightarrow>
          (let hostname = replaceFirst ''www.'' [] (hostname parsed)
           in if list_ex (\<lambda>trusted. hostname = trusted \<or> endsWith hostname (''.'' @ trusted))
                   (trustedDomains config) then 1.0
              else if endsWith hostname ''.gov'' \<or> endsWith hostname ''.edu'' then 0.9
              else if list_ex (\<lambda>quality. hostname = quality \<or> endsWith hostname (''.'' @ quality))
                        qualityDomains then 0.8
              else 0.5))"

definition relevanceScore :: "'a SearchResult_scheme \<Rightarrow> string \<Rightarrow> real" where
  "relevanceScore result query =
     (let queryTerms = Scorer_tokenize query;
          titleTerms = Scorer_tokenize (title result);
          snippetTerms = Scorer_tokenize (snippet result)
      in if length queryTerms = 0 then 0.5
         else
           (let titleMatches = length (filter (\<lambda>term. term \<in> set titleTerms) queryTerms);
                snippetMatches = length (filter (\<lambda>term. term \<in> set snippetTerms) queryTerms);
                titleScore = real titleMatches / real (length queryTerms);
                snippetScore = real snippetMatches / real (length queryTerms);
                combinedScore = titleScore * 0.6 + snippetScore * 0.4
            in if includes_str (toLowerCase (title result)) (toLowerCase query)
               then min 1.0 (combinedScore + 0.2)
               else combinedScore))"

text \<open>\<open>{ ...result, score: totalScore }\<close>: a copy of the result with one more field.\<close>

definition Scorer_score :: "url_parser \<Rightarrow> ScoringConfig \<Rightarrow> int \<Rightarrow> SearchResult \<Rightarrow> string \<Rightarrow> ScoredResult" where
  "Scorer_score parse config now result query =
     (let rec = recencyScore now (timestamp result);
          dom = domainScore parse config (url result);
          relevance = relevanceScore result query;
          totalScore = rec * recency (weights config) +
                       dom * domainAuthority (weights config) +
                       relevance * keywordRelevance (weights config)
      in SearchResult.extend result (ScoredResult.fields totalScore))"

text \<open>\<open>scored.sort((a, b) => b.score - a.score)\<close>: a stable sort, descending by score.\<close>

definition Scorer_scoreAll :: "url_parser \<Rightarrow> ScoringConfig \<Rightarrow> int \<Rightarrow> SearchResult list \<Rightarrow> string \<Rightarrow> ScoredResult list" where
  "Scorer_scoreAll parse config now results query =
     sort_key (\<lambda>r. - score r) (map (\<lambda>r. Scorer_score parse config now r query) results)"


section \<open>Categorizer\<close>

datatype rule_type = domain | keyword | url_pattern

datatype rule_value = Single string | Many "string list"

record CategoryRule =
  rule_type :: rule_type
  rule_value :: rule_value

record Category =
  name :: string
  description :: "string option"
  rules :: "CategoryRule list"

record CategorizedResult = ScoredResult +
  categories :: "string list"

definition DEFAULT_CATEGORIES :: "Category list" where
  "DEFAULT_CATEGORIES =
     [\<lparr> name = ''Documentation'',
        description = Some ''Official documentation and reference materials'',
        rules =
          [\<lparr> rule_type = domain, rule_value = Many [''docs.'', ''documentation.'', ''developer.'', ''devdocs.''] \<rparr>,
           \<lparr> rule_type = keyword, rule_value = Many [''documentation'', ''docs'', ''api reference'', ''guide''] \<rparr>,
           \<lparr> rule_type = url_pattern, rule_value = Many [''/docs/'', ''/documentation/'', ''/api/'', ''/reference/''] \<rparr>] \<rparr>,
      \<lparr> name = ''Tutorial'',
        description = Some ''Step-by-step tutorials and how-to guides'',
        rules =
          [\<lparr> rule_type = keyword, rule_value = Many [''tutorial'', ''how to'', ''step by step'', ''getting started'', ''learn''] \<rparr>,
           \<lparr> rule_type = url_pattern, rule_value = Many [''/tutorial'', ''/guide/'', ''/learn/'', ''/howto/''] \<rparr>] \<rparr>,
      \<lparr> name = ''Repository'',
        description = Some ''Source code repositories and packages'',
        rules =
          [\<lparr> rule_type = domain, rule_value = Many [''github.com'', ''gitlab.com'', ''bitbucket.org'', ''npmjs.com'', ''pypi.org''] \<rparr>,
           \<lparr> rule_type = url_pattern, rule_value = Many [''/repository/'', ''/packages/'', ''/releases/''] \<rparr>] \<rparr>,
      \<lparr> name = ''Discussion'',
        description = Some ''Community discussions and Q&A'',
        rules =
          [\<lparr> rule_type = domain, rule_value = Many [''stackoverflow.com'', ''reddit.com'', ''discourse.'', ''discuss.''] \<rparr>,
           \<lparr> rule_type = keyword, rule_value = Many [''question'', ''answer'', ''discussion'', ''forum'', ''community''] \<rparr>] \<rparr>,
      \<lparr> name = ''Blog'',
        description = Some ''Blog posts and articles'',
        rules =
          [\<lparr> rule_type = domain, rule_value = Many [''medium.com'', ''dev.to'', ''hashnode.'', ''substack.com''] \<rparr>,
           \<lparr> rule_type = url_pattern, rule_value = Many [''/blog/'', ''/posts/'', ''/articles/'', ''/news/''] \<rparr>,
           \<lparr> rule_type = keyword, rule_value = Many [''blog post'', ''article'', ''written by''] \<rparr>] \<rparr>,
      \<lparr> name = ''News'',
        description = Some ''News articles and announcements'',
        rules =
          [\<lparr> rule_type = keyword, rule_value = Many [''announced'', ''release'', ''update'', ''breaking'', ''news''] \<rparr>,
           \<lparr> rule_type = url_pattern, rule_value = Many [''/news/'', ''/announcements/'', ''/press/''] \<rparr>] \<rparr>,
      \<lparr> name = ''Video'',
        description = Some ''Video content'',
        rules =
          [\<lparr> rule_type = domain, rule_value = Many [''youtube.com'', ''vimeo.com'', ''twitch.tv''] \<rparr>,
           \<lparr> rule_type = url_pattern, rule_value = Many [''/watch'', ''/video/'', ''/videos/''] \<rparr>] \<rparr>,
      \<lparr> name = ''Research'',
        description = Some ''Academic and research papers'',
        rules =
          [\<lparr> rule_type = domain, rule_value = Many [''arxiv.org'', ''scholar.google'', ''researchgate.net'', ''academia.edu''] \<rparr>,
           \<lparr> rule_type = keyword, rule_value = Many [''paper'', ''research'', ''study'', ''abstract'', ''citation''] \<rparr>,
           \<lparr> rule_type = url_pattern, rule_value = Many [''/paper/'', ''/publication/'', ''/research/''] \<rparr>] \<rparr>]"

text \<open>The innermost loops: the first value found in the subject sets \<open>matched\<close> and breaks.\<close>

fun valuesLoop :: "string \<Rightarrow> string list \<Rightarrow> bool \<Rightarrow> bool" where
  "valuesLoop subject [] matched = matched"
| "valuesLoop subject (v # vs) matched =
     (if includes_str subject (toLowerCase v) then True else valuesLoop subject vs matched)"

text \<open>The loop over the rules of one category, left by \<open>if (matched) break\<close>.\<close>

fun rulesLoop :: "string \<Rightarrow> string \<Rightarrow> string \<Rightarrow> CategoryRule list \<Rightarrow> bool \<Rightarrow> bool" where
  "rulesLoop host text u [] matched = matched"
| "rulesLoop host text u (rule # rest) matched =
     (if matched then matched
      else
        (let vals = (case rule_value rule of Many vs \<Rightarrow> vs | Single v \<Rightarrow> [v])
         in rulesLoop host text u rest
              (case rule_type rule of
                 domain \<Rightarrow> valuesLoop host vals matched
               | keyword \<Rightarrow> valuesLoop text vals matched
               | url_pattern \<Rightarrow> valuesLoop u vals matched)))"

fun categoriesLoop :: "string \<Rightarrow> string \<Rightarrow> string \<Rightarrow> Category list \<Rightarrow> string list \<Rightarrow> string list" where
  "categoriesLoop host text u [] matches = matches"
| "categoriesLoop host text u (category # rest) matches =
     categoriesLoop host text u rest
       (if rulesLoop host text u (rules category) False
        then matches @ [name category] else matches)"

definition matchCategories :: "url_parser \<Rightarrow> Category list \<Rightarrow> 'a ScoredResult_scheme \<Rightarrow> string list" where
  "matchCategories parse cats result =
     (let u = toLowerCase (url result);
          text = toLowerCase (title result @ '' '' @ snippet result);
          hostname = (case parse (url result) of
                        Some parsed \<Rightarrow> toLowerCase (hostname parsed)
                      | None \<Rightarrow> []);
          matches = categoriesLoop hostname text u cats []
      in if length matches = 0 then matches @ [''General''] else matches)"

definition categorize :: "url_parser \<Rightarrow> Category list \<Rightarrow> ScoredResult list \<Rightarrow> CategorizedResult list" where
  "categorize parse cats results =
     map (\<lambda>result. ScoredResult.extend result (CategorizedResult.fields (matchCategories parse cats result)))
         results"


section \<open>BM25 ranker and hybrid scorer (\<open>BM25Ranker\<close>, \<open>HybridBM25Scorer\<close>)\<close>

text \<open>
  The ranker keeps its index between calls. The hybrid scorer creates its ranker with
  \<open>new BM25Ranker()\<close>, so the parameters are the defaults \<open>k1 = 1.5\<close>, \<open>b = 0.75\<close>,
  \<open>delta = 0\<close>. Numbers are real numbers here, \<open>Math.log\<close> is \<^term>\<open>ln\<close>.
\<close>

record BM25Ranker =
  k1 :: real
  b :: real
  delta :: real
  idfCache :: "string \<rightharpoonup> real"
  avgDocLength :: real
  totalDocs :: nat
  docFrequency :: "string \<rightharpoonup> nat"


record BM25ScoredResult = SearchResult +
  bm25Score :: real









record HybridWeights =
  bm25 :: real
  recency :: real
  domainAuthority :: real


record HybridScoredResult = BM25ScoredResult +
  score :: real









section \<open>Deduplicator\<close>

record DeduplicationConfig =
  urlNormalization :: bool
  contentFingerprint :: bool
  similarityThreshold :: real

definition trackingParams :: "string list" where
  "trackingParams =
     [''utm_source'', ''utm_medium'', ''utm_campaign'', ''utm_term'', ''utm_content'',
      ''fbclid'', ''gclid'', ''ref'', ''source'', ''mc_eid'', ''mc_cid'']"

text \<open>\<open>normalizeUrl\<close>: everything happens inside one \<open>try\<close>; only the parser can throw, and
  the \<open>catch\<close> returns the lower-cased input.\<close>

definition normalizeUrl :: "url_parser \<Rightarrow> string \<Rightarrow> string" where
  "normalizeUrl parse u =
     (case parse u of
        None \<Rightarrow> toLowerCase u
      | Some parsed0 \<Rightarrow>
          (let parsed = parsed0 \<lparr> hash := [] \<rparr>;
               params = searchParams_sort (fold searchParams_delete trackingParams (searchParams parsed));
               lowered = toLowerCase (hostname parsed);
               hostname = (if startsWith lowered ''www.'' then drop 4 lowered else lowered);
               pathname = (if length (pathname parsed) > 1 \<and> endsWith (pathname parsed) ''/''
                           then butlast (pathname parsed) else pathname parsed);
               search = searchParams_toString params
           in protocol parsed @ ''//'' @ hostname @ pathname @
              (if search \<noteq> [] then ''?'' @ search else [])))"

text \<open>\<open>s.replace(/\s+/g, ' ')\<close>.\<close>

function collapseWs :: "string \<Rightarrow> string" where
  "collapseWs [] = []"
| "collapseWs (c # cs) =
     (if isSpace c then CHR '' '' # collapseWs (dropWhile isSpace cs) else c # collapseWs cs)"
  by pat_completeness auto
termination
  by (relation "measure length") (auto simp: less_Suc_eq_le length_dropWhile_le)

text \<open>The trigram loop: for every position with two successors, the three words sorted
  and joined without a separator, added to a set.\<close>

definition trigramsOf :: "string list \<Rightarrow> string list" where
  "trigramsOf ws =
     newSet (concat (map (\<lambda>i. (let w1 = ws ! i; w2 = ws ! (i + 1); w3 = ws ! (i + 2)
                                in if w1 \<noteq> [] \<and> w2 \<noteq> [] \<and> w3 \<noteq> []
                                   then [join [] (sort [w1, w2, w3])] else []))
                         [0 ..< length ws - 2]))"

definition fingerprint :: "string \<Rightarrow> string" where
  "fingerprint text =
     (let cleaned = trim (collapseWs (replaceNonWord (toLowerCase text)));
          ws = filter (\<lambda>w. length w > 2) (splitOn CHR '' '' cleaned)
      in if length ws < 3 then cleaned
         else join ''|'' (take 10 (sort (trigramsOf ws))))"

definition generateKey :: "url_parser \<Rightarrow> DeduplicationConfig \<Rightarrow> 'a SearchResult_scheme \<Rightarrow> string" where
  "generateKey parse config result =
     join '':''
       ((if urlNormalization config then [normalizeUrl parse (url result)] else [url result]) @
        (if contentFingerprint config
         then [fingerprint (title result @ '' '' @ snippet result)] else []))"

text \<open>
  \<open>deduplicate\<close> works on objects: the input array holds references to result objects, the
  returned array holds some of the same references, and the metadata of a surviving
  object is replaced in place. The heap maps references to result objects and to
  arrays; \<open>nextRef\<close> is the reference the next new array gets.
\<close>

record heap =
  objects :: "ref \<Rightarrow> SearchResult"
  arrays :: "ref \<Rightarrow> jsval list"
  nextRef :: ref

text \<open>\<open>{ ...a, ...b }\<close> on two optional bags: an absent bag spreads to nothing, and on a key
  of both the value of the second wins.\<close>

definition bagOf :: "metadata_bag option \<Rightarrow> metadata_bag" where
  "bagOf m = (case m of None \<Rightarrow> Map.empty | Some bag \<Rightarrow> bag)"

definition spread2 :: "metadata_bag option \<Rightarrow> metadata_bag option \<Rightarrow> metadata_bag" where
  "spread2 m1 m2 = bagOf m1 ++ bagOf m2"

definition getProp :: "metadata_bag \<Rightarrow> string \<Rightarrow> jsval" where
  "getProp bag k = (case bag k of None \<Rightarrow> JUndefined | Some v \<Rightarrow> v)"

text \<open>The \<open>else\<close> branch of the loop body, for the surviving object \<open>e\<close> and the duplicate \<open>r\<close>.\<close>

definition mergeDuplicate :: "heap \<Rightarrow> ref \<Rightarrow> ref \<Rightarrow> heap" where
  "mergeDuplicate h e r =
     (let existing = objects h e;
          result = objects h r;
          merged = spread2 (metadata existing) (metadata result);
          (bag, arrs, nxt) =
             (if \<not> truthy (getProp merged ''sources'')
              then (merged(''sources'' \<mapsto> JArr (nextRef h)),
                    (arrays h)(nextRef h := [JStr (providerTag (source existing))]),
                    Suc (nextRef h))
              else (merged, arrays h, nextRef h));
          arrs' = (case getProp bag ''sources'' of
                     JArr a \<Rightarrow> arrs(a := arrs a @ [JStr (providerTag (source result))])
                   | _ \<Rightarrow> arrs)
      in \<lparr> objects = (objects h)(e := existing \<lparr> metadata := Some bag \<rparr>),
           arrays = arrs', nextRef = nxt \<rparr>)"

record dedup_state =
  hp :: heap
  seen :: "string \<rightharpoonup> ref"
  unique :: "ref list"
  duplicates :: nat

definition dedupStep :: "url_parser \<Rightarrow> DeduplicationConfig \<Rightarrow> ref \<Rightarrow> dedup_state \<Rightarrow> dedup_state" where
  "dedupStep parse config r st =
     (let key = generateKey parse config (objects (hp st) r)
      in case seen st key of
           None \<Rightarrow> st \<lparr> seen := (seen st)(key \<mapsto> r), unique := unique st @ [r] \<rparr>
         | Some e \<Rightarrow> st \<lparr> duplicates := duplicates st + 1, hp := mergeDuplicate (hp st) e r \<rparr>)"

definition deduplicate :: "url_parser \<Rightarrow> DeduplicationConfig \<Rightarrow> heap \<Rightarrow> ref list \<Rightarrow> ref list \<times> heap" where
  "deduplicate parse config h results =
     (let st = fold (dedupStep parse config) results
                 \<lparr> hp = h, seen = Map.empty, unique = [], duplicates = 0 \<rparr>
      in (unique st, hp st))"


section \<open>Fetcher\<close>

text \<open>
  What a provider's \<open>search\<close> can throw and what the retry wrapper can reject with: an
  instance of the class \<open>ProviderError\<close> (its message and status code), a \<open>TypeError\<close>,
  another \<open>Error\<close> (its message), or a value that is not an \<open>Error\<close> at all (what \<open>String\<close>
  makes of it).
\<close>

datatype thrown =
    ThrownProviderError string "int option"
  | ThrownTypeError string
  | ThrownError string
  | ThrownValue string

text \<open>\<open>error instanceof Error ? error.message : String(error)\<close> and
  \<open>error instanceof ProviderError ? error.statusCode : undefined\<close>.\<close>

fun errorMessage :: "thrown \<Rightarrow> string" where
  "errorMessage (ThrownProviderError msg status) = msg"
| "errorMessage (ThrownTypeError msg) = msg"
| "errorMessage (ThrownError msg) = msg"
| "errorMessage (ThrownValue str) = str"

fun errorStatusCode :: "thrown \<Rightarrow> int option" where
  "errorStatusCode (ThrownProviderError msg status) = status"
| "errorStatusCode (ThrownTypeError msg) = None"
| "errorStatusCode (ThrownError msg) = None"
| "errorStatusCode (ThrownValue str) = None"

text \<open>The record \<open>ProviderError\<close> of \<open>providers/types.ts\<close>, which the fetcher imports as
  \<open>ProviderErrorType\<close>.\<close>

record ProviderErrorType =
  provider :: ProviderName
  message :: string
  statusCode :: "int option"

text \<open>
  A provider. One call of \<open>search\<close> resolves to a result list or rejects, and the outcome
  may differ from call to call: \<open>search n\<close> is the outcome of the call number \<open>n\<close> (from 0)
  within one fetch. The search options are a type parameter; the fetcher only passes
  them on and serialises them for the cache key.
\<close>

record 'o Provider =
  name :: ProviderName
  search :: "nat \<Rightarrow> string \<Rightarrow> 'o \<Rightarrow> thrown + SearchResult list"

record FetchResult =
  results :: "SearchResult list"
  errors :: "ProviderErrorType list"
  providers :: "ProviderName list"

text \<open>The fetcher's configuration after the constructor: \<open>hasCache\<close> says whether a
  \<open>FileCache\<close> was passed.\<close>

record Fetcher =
  concurrency :: int
  retries :: nat
  hasCache :: bool
  cacheEnabled :: bool

definition new_Fetcher :: Fetcher where
  "new_Fetcher = \<lparr> concurrency = 3, retries = 2, hasCache = False, cacheEnabled = True \<rparr>"

text \<open>
  The cache as the fetcher sees it: \<open>get\<close> yields the stored list of an entry that exists,
  is readable and has not expired, and nothing otherwise; \<open>set\<close> stores a list.
\<close>

type_synonym cache_store = "string \<rightharpoonup> SearchResult list"

text \<open>\<open>getCacheKey\<close>; \<open>optionsKey\<close> stands for \<open>JSON.stringify\<close> of the selected option fields.\<close>

definition getCacheKey :: "('o \<Rightarrow> string) \<Rightarrow> ProviderName \<Rightarrow> string \<Rightarrow> 'o \<Rightarrow> string" where
  "getCacheKey optionsKey p query options =
     providerTag p @ '':'' @ query @ '':'' @ optionsKey options"

text \<open>
  \<open>pRetry(run, {retries, onFailedAttempt})\<close> is a function of the library \<open>p-retry\<close>, not of
  this repository, and the fetcher takes it as a parameter: \<open>retry run k\<close> is what
  \<open>pRetry\<close> resolves to (\<open>Inr\<close>) or rejects with (\<open>Inl\<close>) for the function whose call number
  \<open>n\<close> has the outcome \<open>run n\<close>, with \<open>retries = k\<close>. The callback \<open>onFailedAttempt\<close> of the
  source only writes a log line.
\<close>

type_synonym 'a retrier = "(nat \<Rightarrow> thrown + 'a) \<Rightarrow> nat \<Rightarrow> thrown + 'a"

text \<open>
  The library as its releases describe it. A call that resolves ends the retries with its
  value. After a call that rejects: a value that is not an \<open>Error\<close> is replaced by a
  \<open>TypeError\<close> and nothing is retried; a \<open>TypeError\<close> whose message is not one of the network
  error messages is rethrown at once; every other error is recorded, and the call is
  repeated while retries are left. When none is left the library rejects with one of the
  recorded errors. Which messages count as network errors, and which recorded error is
  reported at the end (the last one, or the one the \<open>retry\<close> package calls the main
  error), differs between releases; both are the fields of a \<open>retry_policy\<close>.
\<close>

record retry_policy =
  isNetworkError :: "string \<Rightarrow> bool"
  reported :: "thrown list \<Rightarrow> thrown"

fun retryable :: "retry_policy \<Rightarrow> thrown \<Rightarrow> bool" where
  "retryable policy (ThrownTypeError msg) = isNetworkError policy msg"
| "retryable policy (ThrownValue str) = False"
| "retryable policy e = True"

fun rejection :: "thrown \<Rightarrow> thrown" where
  "rejection (ThrownValue str) =
     ThrownTypeError (''Non-error was thrown: '' @ [CHR 0x22] @ str @ [CHR 0x22] @
                      ''. You should only throw errors.'')"
| "rejection e = e"

fun pRetry ::
  "retry_policy \<Rightarrow> (nat \<Rightarrow> thrown + 'a) \<Rightarrow> nat \<Rightarrow> nat \<Rightarrow> thrown list \<Rightarrow> thrown + 'a" where
  "pRetry policy run attempt retriesLeft recorded =
     (case run attempt of
        Inr v \<Rightarrow> Inr v
      | Inl e \<Rightarrow>
          if \<not> retryable policy e then Inl (rejection e)
          else (case retriesLeft of
                  0 \<Rightarrow> Inl (reported policy (recorded @ [e]))
                | Suc k \<Rightarrow> pRetry policy run (Suc attempt) k (recorded @ [e])))"

definition pRetryWith :: "retry_policy \<Rightarrow> 'a retrier" where
  "pRetryWith policy run k = pRetry policy run 0 k []"

definition fetchFromProvider ::
  "SearchResult list retrier \<Rightarrow> ('o \<Rightarrow> string) \<Rightarrow> Fetcher \<Rightarrow> cache_store \<Rightarrow> 'o Provider
     \<Rightarrow> string \<Rightarrow> 'o \<Rightarrow> (thrown + SearchResult list) \<times> cache_store" where
  "fetchFromProvider retry optionsKey fetcher store p query options =
     (let cacheKey = getCacheKey optionsKey (name p) query options;
          cached = (if hasCache fetcher \<and> cacheEnabled fetcher then store cacheKey else None)
      in case cached of
           Some rs \<Rightarrow> (Inr rs, store)
         | None \<Rightarrow>
             (case retry (\<lambda>n. search p n query options) (retries fetcher) of
                Inl e \<Rightarrow> (Inl e, store)
              | Inr rs \<Rightarrow>
                  (Inr rs,
                   if hasCache fetcher \<and> cacheEnabled fetcher \<and> length rs > 0
                   then store(cacheKey \<mapsto> rs) else store)))"

text \<open>One task of \<open>fetchAll\<close>: the provider's results and name are appended on success, an
  error record with the provider's name on failure; nothing is thrown.\<close>

definition providerTask ::
  "SearchResult list retrier \<Rightarrow> ('o \<Rightarrow> string) \<Rightarrow> Fetcher \<Rightarrow> string \<Rightarrow> 'o \<Rightarrow> 'o Provider
     \<Rightarrow> FetchResult \<times> cache_store \<Rightarrow> FetchResult \<times> cache_store" where
  "providerTask retry optionsKey fetcher query options p acc =
     (case fetchFromProvider retry optionsKey fetcher (snd acc) p query options of
        (Inr providerResults, store') \<Rightarrow>
          ((fst acc) \<lparr> results := results (fst acc) @ providerResults,
                       providers := providers (fst acc) @ [name p] \<rparr>, store')
      | (Inl error, store') \<Rightarrow>
          ((fst acc) \<lparr> errors := errors (fst acc) @
                         [\<lparr> provider = name p, message = errorMessage error,
                            statusCode = errorStatusCode error \<rparr>] \<rparr>, store'))"

text \<open>
  \<open>fetchAll\<close>. The library function \<open>pLimit\<close> throws for a concurrency below 1, which
  rejects the whole call. Otherwise every task runs and settles, and the three arrays
  grow in the order in which the tasks settle: \<open>settled\<close> is the list of the providers
  passed to \<open>fetchAll\<close> in that order (with concurrency 1 it is the order of the call).
  Tasks of providers with different names use different cache keys, so running the
  tasks one after the other in the order of settling gives the arrays of any
  interleaving.
\<close>

definition fetchAll ::
  "SearchResult list retrier \<Rightarrow> ('o \<Rightarrow> string) \<Rightarrow> Fetcher \<Rightarrow> cache_store \<Rightarrow> 'o Provider list
     \<Rightarrow> string \<Rightarrow> 'o \<Rightarrow> thrown + FetchResult \<times> cache_store" where
  "fetchAll retry optionsKey fetcher store settled query options =
     (if concurrency fetcher < 1
      then Inl (ThrownTypeError ''Expected `concurrency` to be a number from 1 and up'')
      else Inr (fold (providerTask retry optionsKey fetcher query options) settled
                  (\<lparr> results = [], errors = [], providers = [] \<rparr>, store)))"


section \<open>Reference definitions and sample data used by the theorems\<close>

text \<open>Which numbers one comma-separated part of a selection stands for: the number that
  \<open>parseInt\<close> reads from it, or every number of a range whose two bounds, as \<open>parseInt\<close>
  reads them, are neither \<open>NaN\<close> nor 0.\<close>

definition partSelects :: "string \<Rightarrow> int \<Rightarrow> bool" where
  "partSelects part n =
     (if includes_str part ''-''
      then (case map (\<lambda>f. parseInt (trim f)) (splitOn CHR ''-'' part) of
              start # en # _ \<Rightarrow>
                numTruthy start \<and> numTruthy en \<and> numLe start (Finite n) \<and> numLe (Finite n) en
            | _ \<Rightarrow> False)
      else parseInt part = Finite n)"

text \<open>The last number a range reaches: the smaller of its upper bound and \<open>max\<close>.\<close>

definition rangeTop :: "number \<Rightarrow> int \<Rightarrow> int" where
  "rangeTop en mx = (case en of Finite e \<Rightarrow> min e mx | PosInfinity \<Rightarrow> mx | _ \<Rightarrow> 0)"

text \<open>When a category matches a result: some rule of the category has some value that
  occurs in the text the rule looks at.\<close>

definition ruleSubject :: "url_parser \<Rightarrow> 'a ScoredResult_scheme \<Rightarrow> rule_type \<Rightarrow> string" where
  "ruleSubject parse result t =
     (case t of
        domain \<Rightarrow> (case parse (url result) of
                     Some parsed \<Rightarrow> toLowerCase (hostname parsed)
                   | None \<Rightarrow> [])
      | keyword \<Rightarrow> toLowerCase (title result @ '' '' @ snippet result)
      | url_pattern \<Rightarrow> toLowerCase (url result))"

definition ruleValues :: "CategoryRule \<Rightarrow> string list" where
  "ruleValues rule = (case rule_value rule of Many vs \<Rightarrow> vs | Single v \<Rightarrow> [v])"

definition ruleMatches :: "url_parser \<Rightarrow> 'a ScoredResult_scheme \<Rightarrow> CategoryRule \<Rightarrow> bool" where
  "ruleMatches parse result rule =
     (\<exists>v \<in> set (ruleValues rule).
        includes_str (ruleSubject parse result (rule_type rule)) (toLowerCase v))"

definition categoryMatches :: "url_parser \<Rightarrow> 'a ScoredResult_scheme \<Rightarrow> Category \<Rightarrow> bool" where
  "categoryMatches parse result category =
     (\<exists>rule \<in> set (rules category). ruleMatches parse result rule)"

definition matchingCategories :: "url_parser \<Rightarrow> Category list \<Rightarrow> 'a ScoredResult_scheme \<Rightarrow> string list" where
  "matchingCategories parse cats result = map Category.name (filter (categoryMatches parse result) cats)"




text \<open>The first occurrence of each key in a list, in the order of the list.\<close>

definition firstOccurrences :: "('a \<Rightarrow> 'k) \<Rightarrow> 'a list \<Rightarrow> 'a list" where
  "firstOccurrences key xs =
     map (\<lambda>i. xs ! i) (filter (\<lambda>i. \<forall>j<i. key (xs ! j) \<noteq> key (xs ! i)) [0 ..< length xs])"

text \<open>The deduplication key of the object behind a reference.\<close>

definition keyOf :: "url_parser \<Rightarrow> DeduplicationConfig \<Rightarrow> heap \<Rightarrow> ref \<Rightarrow> string" where
  "keyOf parse config h a = generateKey parse config (objects h a)"





text \<open>Two heaps hold, behind every reference, results that agree in everything but the
  metadata.\<close>

definition sameFields :: "heap \<Rightarrow> heap \<Rightarrow> bool" where
  "sameFields h h' =
     (\<forall>a. url (objects h' a) = url (objects h a) \<and> title (objects h' a) = title (objects h a) \<and>
          snippet (objects h' a) = snippet (objects h a) \<and>
          source (objects h' a) = source (objects h a) \<and>
          timestamp (objects h' a) = timestamp (objects h a))"

definition initialState :: "heap \<Rightarrow> dedup_state" where
  "initialState h = \<lparr> hp = h, seen = Map.empty, unique = [], duplicates = 0 \<rparr>"

text \<open>Sample configurations and results.\<close>

definition defaultScoring :: ScoringConfig where
  "defaultScoring =
     \<lparr> weights = \<lparr> ScoringWeights.recency = 0.3, ScoringWeights.domainAuthority = 0.2, keywordRelevance = 0.5 \<rparr>,
       trustedDomains = [''wikipedia.org'', ''github.com'', ''developer.mozilla.org'',
                         ''stackoverflow.com''] \<rparr>"

definition unitWeightScoring :: ScoringConfig where
  "unitWeightScoring =
     \<lparr> weights = \<lparr> ScoringWeights.recency = 1, ScoringWeights.domainAuthority = 1, keywordRelevance = 1 \<rparr>,
       trustedDomains = [''github.com''] \<rparr>"

definition githubResult :: SearchResult where
  "githubResult =
     \<lparr> url = ''https://github.com/typescript'', title = ''TypeScript GitHub'',
       snippet = ''TypeScript repository'', source = brave, timestamp = 0, metadata = None \<rparr>"

definition customCategories :: "Category list" where
  "customCategories =
     [\<lparr> Category.name = ''Repository'', description = None,
        rules = [\<lparr> rule_type = domain, rule_value = Many [''gitlab.com'', ''GitHub.com''] \<rparr>] \<rparr>,
      \<lparr> Category.name = ''Tutorial'', description = None,
        rules = [\<lparr> rule_type = url_pattern, rule_value = Single ''/learn/'' \<rparr>,
                 \<lparr> rule_type = keyword, rule_value = Single ''tutorial'' \<rparr>] \<rparr>]"

definition repoResult :: ScoredResult where
  "repoResult =
     \<lparr> url = ''https://github.com/ts'', title = ''TS'', snippet = ''Code'', source = brave,
       timestamp = 0, metadata = None, ScoredResult.score = 0.9 \<rparr>"

definition pageResult :: ScoredResult where
  "pageResult =
     \<lparr> url = ''https://a.com/b'', title = ''Page'', snippet = ''Text'', source = duckduckgo,
       timestamp = 0, metadata = None, ScoredResult.score = 0.5 \<rparr>"


definition defaultDeduplication :: DeduplicationConfig where
  "defaultDeduplication =
     \<lparr> urlNormalization = True, contentFingerprint = True, similarityThreshold = 0.85 \<rparr>"

text \<open>A heap with three result objects: the first two are the same page from two providers
  (one URL carries a tracking parameter), the third is another page.\<close>

definition pageFromBrave :: SearchResult where
  "pageFromBrave =
     \<lparr> url = ''https://example.com/page?utm_source=g'', title = ''Test'', snippet = ''Content here'',
       source = brave, timestamp = 0,
       metadata = Some [''a'' \<mapsto> JNum 1, ''c'' \<mapsto> JStr ''x''] \<rparr>"

definition pageFromDuckduckgo :: SearchResult where
  "pageFromDuckduckgo =
     \<lparr> url = ''https://www.example.com/page'', title = ''Test'', snippet = ''Content here'',
       source = duckduckgo, timestamp = 0,
       metadata = Some [''a'' \<mapsto> JNum 2, ''b'' \<mapsto> JNum 2] \<rparr>"

definition otherPage :: SearchResult where
  "otherPage =
     \<lparr> url = ''https://example.com/other'', title = ''Other'', snippet = ''Text'',
       source = brave, timestamp = 0, metadata = None \<rparr>"

definition sampleHeap :: heap where
  "sampleHeap =
     \<lparr> objects = (\<lambda>a. if a = 10 then pageFromBrave else if a = 11 then pageFromDuckduckgo
                        else otherPage),
       arrays = (\<lambda>a. []), nextRef = 0 \<rparr>"


text \<open>
  What the fetcher relies on in the retry wrapper, whatever the release: when the first
  call resolves, the wrapper resolves with its value, and when every call rejects, the
  wrapper rejects.
\<close>

definition pRetryContract :: "'a retrier \<Rightarrow> bool" where
  "pRetryContract retry =
     (\<forall>run k. (\<forall>v. run 0 = Inr v \<longrightarrow> retry run k = Inr v) \<and>
              ((\<forall>n. isl (run n)) \<longrightarrow> isl (retry run k)))"

text \<open>
  A cache that the fetcher has written for a provider: \<open>fetchFromProvider\<close> stores under
  the provider's key only a non-empty list that the provider's search resolved to.
\<close>

definition cacheWrittenBy ::
  "('o \<Rightarrow> string) \<Rightarrow> cache_store \<Rightarrow> 'o Provider \<Rightarrow> string \<Rightarrow> 'o \<Rightarrow> bool" where
  "cacheWrittenBy optionsKey store p query options =
     (\<forall>cached. store (getCacheKey optionsKey (Provider.name p) query options) = Some cached \<longrightarrow>
        cached \<noteq> [] \<and> (\<exists>n. search p n query options = Inr cached))"

text \<open>Three providers: one that always answers with HTTP 500, one that throws a
  \<open>TypeError\<close> of its own code, and one that finds a page; a fetcher with a cache; a cache
  that holds what the third provider found in an earlier run; and a retry policy.\<close>

definition failingProvider :: "unit Provider" where
  "failingProvider =
     \<lparr> Provider.name = serp,
       search = (\<lambda>n query options. Inl (ThrownProviderError ''[serp] HTTP 500'' (Some 500))) \<rparr>"

definition brokenProvider :: "unit Provider" where
  "brokenProvider =
     \<lparr> Provider.name = rss,
       search = (\<lambda>n query options. Inl (ThrownTypeError ''items is not iterable'')) \<rparr>"

definition workingProvider :: "unit Provider" where
  "workingProvider =
     \<lparr> Provider.name = brave, search = (\<lambda>n query options. Inr [githubResult]) \<rparr>"

definition cachingFetcher :: Fetcher where
  "cachingFetcher = \<lparr> concurrency = 3, retries = 2, hasCache = True, cacheEnabled = True \<rparr>"

definition noOptionsKey :: "unit \<Rightarrow> string" where
  "noOptionsKey options = ''{}''"

definition warmStore :: cache_store where
  "warmStore = [getCacheKey noOptionsKey brave ''typescript'' () \<mapsto> [githubResult]]"

definition samplePolicy :: retry_policy where
  "samplePolicy =
     \<lparr> isNetworkError = (\<lambda>msg. msg \<in> set [''fetch failed'', ''Failed to fetch'',
                                           ''Network request failed'']),
       reported = last \<rparr>"


section \<open>Theorems\<close>

subsection \<open>Evaluation on concrete strings\<close>

lemmas char_eval =
  toLowerCase_def toLowerChar_def char_of_def bit_0 isWordChar_def isSpace_def isDigit_def
  isAlpha_def startsWith_def endsWith_def suffix_to_prefix

lemmas parseURL_eval =
  parseURL_def Let_def urlChar_def hostOk_def hostLabelOk_def portOk_def parseQuery_def
  digitsVal_def digitVal_def


lemmas normalizeUrl_eval =
  normalizeUrl_def trackingParams_def searchParams_sort_def searchParams_toString_def
  searchParams_delete_def urlencode_def urlencodeChar_def


subsection \<open>Selection parser\<close>

lemma set_setInsertAll: "set (setInsertAll acc xs) = set acc \<union> set xs"
  by (induction xs arbitrary: acc) auto

lemma distinct_setInsertAll: "distinct acc \<Longrightarrow> distinct (setInsertAll acc xs)"
  by (induction xs arbitrary: acc) auto

lemma set_newSet: "set (newSet xs) = set xs"
  by (simp add: newSet_def set_setInsertAll)

lemma distinct_newSet: "distinct (newSet xs)"
  by (simp add: newSet_def distinct_setInsertAll)

lemma roundToDouble_exact: "\<bar>v\<bar> < 2 ^ 53 \<Longrightarrow> roundToDouble v = Finite v"
proof -
  assume "\<bar>v\<bar> < 2 ^ 53"
  then have "nat \<bar>v\<bar> < 2 ^ 53" by (simp add: nat_less_iff)
  then show ?thesis by (simp add: roundToDouble_def Let_def)
qed

lemma roundToDouble_large:
  assumes "2 ^ 53 \<le> v"
  shows "roundToDouble v = PosInfinity \<or> (\<exists>w. roundToDouble v = Finite w \<and> 2 ^ 53 \<le> w)"
proof -
  define m where "m = nat \<bar>v\<bar>"
  define e where "e = floorlog 2 m - 53"
  define q where "q = m div 2 ^ e"
  define r where "r = m mod 2 ^ e"
  define q' where "q' = (if 2 * r > 2 ^ e \<or> (2 * r = 2 ^ e \<and> odd q) then q + 1 else q)"
  have m53: "2 ^ 53 \<le> m" using assms by (simp add: m_def le_nat_iff)
  then have mpos: "0 < m" by (meson less_le_trans zero_less_numeral zero_less_power)
  have fl: "2 ^ (floorlog 2 m - 1) \<le> m" "m < 2 ^ floorlog 2 m"
    using floorlog_bounds [of m 2] mpos by simp_all
  have "(2::nat) ^ 53 < 2 ^ floorlog 2 m" using m53 fl(2) by linarith
  then have f54: "53 < floorlog 2 m" by (rule power_less_imp_less_exp [rotated]) simp
  then have e1: "1 \<le> e" and fe: "floorlog 2 m - 1 = e + 52" by (simp_all add: e_def)
  have "2 ^ 52 * 2 ^ e \<le> m" using fl(1) unfolding fe by (simp add: power_add mult.commute)
  then have "2 ^ 52 \<le> q" unfolding q_def
    by (simp add: less_eq_div_iff_mult_less_eq)
  then have q52: "2 ^ 52 \<le> q'" by (simp add: q'_def)
  have "(2::nat) ^ 1 \<le> 2 ^ e" using e1 by (intro power_increasing) simp_all
  then have "2 ^ 52 * 2 \<le> q' * 2 ^ e" using q52 by (intro mult_le_mono) simp_all
  then have "(2::nat) ^ 53 \<le> q' * 2 ^ e" by simp
  then have "int (2 ^ 53) \<le> int (q' * 2 ^ e)" by (rule iffD2 [OF of_nat_le_iff])
  then have w: "2 ^ 53 \<le> int (q' * 2 ^ e)" by simp
  have nm: "\<not> m < 2 ^ 53" using m53 by simp
  have vn: "\<not> v < 0" using assms by (smt (verit) zero_less_power)
  show ?thesis
    using w nm vn
    unfolding roundToDouble_def Let_def m_def [symmetric] e_def [symmetric] q_def [symmetric]
      r_def [symmetric] q'_def [symmetric]
    by (simp del: of_nat_mult of_nat_power)
qed

lemma digitsVal_nonneg_aux:
  "0 \<le> acc \<Longrightarrow> list_all isDigit ds \<Longrightarrow> 0 \<le> foldl (\<lambda>acc d. 10 * acc + digitVal d) acc ds"
proof (induction ds arbitrary: acc)
  case Nil
  then show ?case by simp
next
  case (Cons d ds)
  have "0 \<le> digitVal d" using Cons.prems(2) by (simp add: digitVal_def isDigit_def Let_def)
  then have "0 \<le> 10 * acc + digitVal d" using Cons.prems(1) by simp
  then show ?case using Cons.IH Cons.prems(2) by simp
qed

lemma digitsVal_nonneg: "0 \<le> digitsVal (takeWhile isDigit u)"
  unfolding digitsVal_def
  by (rule digitsVal_nonneg_aux) (simp_all add: list_all_iff, meson set_takeWhileD)

lemma roundToDouble_nonneg:
  assumes "0 \<le> v"
  shows "roundToDouble v = PosInfinity \<or> (\<exists>n. roundToDouble v = Finite n \<and> 0 \<le> n)"
proof (cases "v < 2 ^ 53")
  case True
  then have "roundToDouble v = Finite v" using assms by (intro roundToDouble_exact) simp
  then show ?thesis using assms by simp
next
  case False
  then have "2 ^ 53 \<le> v" by simp
  from roundToDouble_large [OF this] show ?thesis
    by (smt (verit) zero_less_power)
qed

lemma parseInt_unsigned:
  assumes "CHR ''-'' \<notin> set s"
  shows "parseInt s = NaN \<or> parseInt s = PosInfinity \<or> (\<exists>n. parseInt s = Finite n \<and> 0 \<le> n)"
proof -
  define t where "t = dropWhile isSpace s"
  have "set t \<subseteq> set s" unfolding t_def by (meson set_dropWhileD subsetI)
  then have t: "CHR ''-'' \<notin> set t" using assms by blast
  define u where "u = (case t of c # cs \<Rightarrow> if c = CHR ''+'' then cs else t | [] \<Rightarrow> t)"
  have u: "(case t of
              c # cs \<Rightarrow> if c = CHR ''-'' then (True, cs)
                        else if c = CHR ''+'' then (False, cs) else (False, t)
            | [] \<Rightarrow> (False, t)) = (False, u)"
    using t by (cases t) (auto simp: u_def)
  have p: "parseInt s = (if takeWhile isDigit u = [] then NaN
                         else roundToDouble (digitsVal (takeWhile isDigit u)))"
    by (simp add: parseInt_def Let_def t_def [symmetric] u)
  show ?thesis
    unfolding p using roundToDouble_nonneg [OF digitsVal_nonneg, of u] by auto
qed

lemma rangeTop_iff:
  "1 \<le> a \<Longrightarrow> (numLe (Finite a) en \<and> numLe (Finite a) (Finite mx)) = (a \<le> rangeTop en mx)"
  by (cases en) (auto simp: rangeTop_def)

lemma rangeLoop_exact:
  assumes "1 \<le> a" and "mx < 2 ^ 52"
      and "length numbers + nat (rangeTop en mx + 1 - a) \<le> maxArrayLength"
  shows "rangeLoop (Finite a) en mx numbers = Some (Inr (numbers @ [a .. rangeTop en mx]))"
  using assms
proof (induction "nat (rangeTop en mx + 1 - a)" arbitrary: a numbers)
  case 0
  then have "\<not> a \<le> rangeTop en mx" by simp
  then have nc: "\<not> (numLe (Finite a) en \<and> numLe (Finite a) (Finite mx))"
    using rangeTop_iff [OF "0.prems"(1)] by simp
  have "[a .. rangeTop en mx] = []" using \<open>\<not> a \<le> rangeTop en mx\<close> by simp
  moreover have "rangeLoop (Finite a) en mx numbers = Some (Inr numbers)"
    by (subst rangeLoop.simps, subst if_not_P [OF nc]) (rule refl)
  ultimately show ?case by simp
next
  case (Suc k)
  then have le: "a \<le> rangeTop en mx" by linarith
  then have c: "numLe (Finite a) en \<and> numLe (Finite a) (Finite mx)"
    using rangeTop_iff [OF Suc.prems(1)] by simp
  then have amx: "a \<le> mx" by simp
  have len: "length numbers < maxArrayLength" using Suc.hyps(2) Suc.prems(3) by linarith
  have inc: "roundToDouble (a + 1) = Finite (a + 1)"
    using amx Suc.prems(1,2) by (intro roundToDouble_exact) simp
  have k: "k = nat (rangeTop en mx + 1 - (a + 1))" using Suc.hyps(2) by linarith
  have l: "length (numbers @ [a]) + nat (rangeTop en mx + 1 - (a + 1)) \<le> maxArrayLength"
    using Suc.prems(3) le by simp
  have "rangeLoop (Finite a) en mx numbers = rangeLoop (Finite (a + 1)) en mx (numbers @ [a])"
    using c Suc.prems(1) len by (subst rangeLoop.simps) (simp add: push_def inc)
  also have "\<dots> = Some (Inr ((numbers @ [a]) @ [a + 1 .. rangeTop en mx]))"
    using Suc.hyps(1) [OF k _ Suc.prems(2) l] Suc.prems(1) by simp
  also have "(numbers @ [a]) @ [a + 1 .. rangeTop en mx] = numbers @ [a .. rangeTop en mx]"
    using le by (simp add: upto_rec1)
  finally show ?case .
qed

lemma rangeLoop_stall:
  assumes "increment (Finite a) = Finite a" and "1 \<le> a"
      and "numLe (Finite a) en" and "a \<le> mx"
  shows "rangeLoop (Finite a) en mx numbers = Some (Inl InvalidArrayLength)"
proof (induction "maxArrayLength - length numbers" arbitrary: numbers)
  case 0
  then show ?case
    using assms by (subst rangeLoop.simps) (simp add: push_def)
next
  case (Suc k)
  then have len: "length numbers < maxArrayLength" by linarith
  have "rangeLoop (Finite a) en mx numbers = rangeLoop (Finite a) en mx (numbers @ [a])"
    using assms len by (subst rangeLoop.simps) (simp add: push_def)
  also have "\<dots> = Some (Inl InvalidArrayLength)"
    using Suc.hyps(2) by (intro Suc.hyps(1)) simp
  finally show ?case .
qed

lemma not_in_splitOn: "f \<in> set (splitOn c s) \<Longrightarrow> c \<notin> set f"
proof (induction s arbitrary: f)
  case Nil
  then show ?case by simp
next
  case (Cons x s)
  then show ?case
    by (cases "splitOn c s") (auto split: if_splits)
qed

lemma length_splitOn: "length (splitOn c s) \<le> length s + 1"
proof (induction s)
  case Nil
  then show ?case by simp
next
  case (Cons x s)
  then show ?case
    by (cases "splitOn c s") (auto split: if_splits)
qed

lemma set_trim: "set (trim s) \<subseteq> set s"
proof -
  have "set (trim s) = set (dropWhile isSpace (rev (dropWhile isSpace s)))"
    by (simp add: trim_def)
  also have "\<dots> \<subseteq> set (rev (dropWhile isSpace s))"
    by (auto dest: set_dropWhileD)
  also have "\<dots> \<subseteq> set s"
    by (auto dest: set_dropWhileD)
  finally show ?thesis .
qed

lemma range_bound:
  assumes "f \<in> set (splitOn CHR ''-'' part)" and "numTruthy (parseInt (trim f))"
  shows "parseInt (trim f) = PosInfinity \<or> (\<exists>n. parseInt (trim f) = Finite n \<and> 1 \<le> n)"
proof -
  have "CHR ''-'' \<notin> set (trim f)"
    using not_in_splitOn [OF assms(1)] set_trim [of f] by blast
  from parseInt_unsigned [OF this] assms(2) show ?thesis
    by auto
qed

lemma parsePart_result:
  assumes "mx < 2 ^ 52" and "length numbers + nat mx \<le> maxArrayLength"
  shows "\<exists>numbers'. parsePart mx numbers part = Some (Inr numbers') \<and>
           set numbers' = set numbers \<union> {n. 1 \<le> n \<and> n \<le> mx \<and> partSelects part n} \<and>
           length numbers' \<le> length numbers + nat mx"
proof (cases "includes_str part ''-''")
  case True
  let ?fields = "splitOn CHR ''-'' part"
  show ?thesis
  proof (cases "\<exists>f g rest. ?fields = f # g # rest")
    case False
    then have "parsePart mx numbers part = Some (Inr numbers)"
      using True by (auto simp: parsePart_def split: list.splits)
    moreover have "\<And>n. \<not> partSelects part n"
      using True False by (auto simp: partSelects_def split: list.splits)
    ultimately show ?thesis by simp
  next
    case fields: True
    then obtain f g rest where fg: "?fields = f # g # rest" by blast
    let ?s = "parseInt (trim f)" and ?e = "parseInt (trim g)"
    have pp: "parsePart mx numbers part =
              (if numTruthy ?s \<and> numTruthy ?e \<and> \<not> isNaN ?s \<and> \<not> isNaN ?e
               then rangeLoop ?s ?e mx numbers else Some (Inr numbers))"
      using True by (simp add: parsePart_def fg)
    have ps: "partSelects part n =
              (numTruthy ?s \<and> numTruthy ?e \<and> numLe ?s (Finite n) \<and> numLe (Finite n) ?e)" for n
      using True by (simp add: partSelects_def fg)
    show ?thesis
    proof (cases "numTruthy ?s \<and> numTruthy ?e")
      case False
      then show ?thesis by (auto simp: pp ps)
    next
      case t: True
      have nn: "\<not> isNaN ?s" "\<not> isNaN ?e"
        using t by (cases ?s; cases ?e; simp)+
      have fs: "f \<in> set ?fields" and gs: "g \<in> set ?fields" by (simp_all add: fg)
      from range_bound [OF fs] t
      consider "?s = PosInfinity" | a where "?s = Finite a" "1 \<le> a" by blast
      then show ?thesis
      proof cases
        case 1
        have "rangeLoop PosInfinity ?e mx numbers = Some (Inr numbers)"
          by (subst rangeLoop.simps) simp
        then show ?thesis
          using t nn 1 by (auto simp: pp ps)
      next
        case 2
        let ?top = "rangeTop ?e mx"
        have top: "?top \<le> mx"
          using range_bound [OF gs] t by (auto simp: rangeTop_def)
        then have cnt: "nat (?top + 1 - a) \<le> nat mx" using 2(2) by linarith
        then have l: "length numbers + nat (?top + 1 - a) \<le> maxArrayLength"
          using assms(2) by linarith
        have r: "rangeLoop ?s ?e mx numbers = Some (Inr (numbers @ [a .. ?top]))"
          unfolding 2(1) by (rule rangeLoop_exact [OF 2(2) assms(1) l])
        have sel: "(1 \<le> n \<and> n \<le> mx \<and> partSelects part n) = (a \<le> n \<and> n \<le> ?top)" for n
          using range_bound [OF gs] t 2 by (auto simp: ps rangeTop_def)
        have "set (numbers @ [a .. ?top]) =
              set numbers \<union> {n. 1 \<le> n \<and> n \<le> mx \<and> partSelects part n}"
          unfolding sel by auto
        moreover have "length (numbers @ [a .. ?top]) \<le> length numbers + nat mx"
          using cnt by simp
        ultimately show ?thesis
          using t nn by (simp add: pp r)
      qed
    qed
  qed
next
  case False
  have pp: "parsePart mx numbers part =
            (case parseInt part of
               Finite num \<Rightarrow> if num \<ge> 1 \<and> num \<le> mx then Some (push numbers num)
                             else Some (Inr numbers)
             | _ \<Rightarrow> Some (Inr numbers))"
    using False by (simp add: parsePart_def)
  have ps: "partSelects part n = (parseInt part = Finite n)" for n
    using False by (simp add: partSelects_def)
  show ?thesis
  proof (cases "\<exists>num. parseInt part = Finite num \<and> 1 \<le> num \<and> num \<le> mx")
    case True
    then obtain num where num: "parseInt part = Finite num" "1 \<le> num" "num \<le> mx" by blast
    then have "length numbers < maxArrayLength" using assms(2) by linarith
    then have "parsePart mx numbers part = Some (Inr (numbers @ [num]))"
      using num by (simp add: pp push_def)
    moreover have "set (numbers @ [num]) =
                   set numbers \<union> {n. 1 \<le> n \<and> n \<le> mx \<and> partSelects part n}"
      using num by (auto simp: ps)
    moreover have "length (numbers @ [num]) \<le> length numbers + nat mx"
      using num by simp
    ultimately show ?thesis by blast
  next
    case no: False
    then have "parsePart mx numbers part = Some (Inr numbers)"
      by (auto simp: pp split: number.splits)
    moreover have "{n. 1 \<le> n \<and> n \<le> mx \<and> partSelects part n} = {}"
      using no by (auto simp: ps)
    ultimately show ?thesis by auto
  qed
qed

lemma partsLoop_result:
  assumes "mx < 2 ^ 52" and "length numbers + length parts * nat mx \<le> maxArrayLength"
  shows "\<exists>numbers'. partsLoop mx parts numbers = Some (Inr numbers') \<and>
           set numbers' =
             set numbers \<union> {n. 1 \<le> n \<and> n \<le> mx \<and> (\<exists>part \<in> set parts. partSelects part n)}"
  using assms(2)
proof (induction parts arbitrary: numbers)
  case Nil
  then show ?case by simp
next
  case (Cons part parts)
  have "length numbers + nat mx \<le> maxArrayLength" using Cons.prems by simp
  from parsePart_result [OF assms(1) this, of part] obtain numbers' where
    p: "parsePart mx numbers part = Some (Inr numbers')"
    and s: "set numbers' = set numbers \<union> {n. 1 \<le> n \<and> n \<le> mx \<and> partSelects part n}"
    and l: "length numbers' \<le> length numbers + nat mx"
    by blast
  have "length numbers' + length parts * nat mx \<le> maxArrayLength"
    using l Cons.prems by simp
  from Cons.IH [OF this] obtain numbers'' where
    q: "partsLoop mx parts numbers' = Some (Inr numbers'')"
    and t: "set numbers'' =
             set numbers' \<union> {n. 1 \<le> n \<and> n \<le> mx \<and> (\<exists>part \<in> set parts. partSelects part n)}"
    by blast
  have "partsLoop mx (part # parts) numbers = Some (Inr numbers'')"
    by (simp add: p q)
  moreover have "set numbers'' =
             set numbers \<union> {n. 1 \<le> n \<and> n \<le> mx \<and> (\<exists>p \<in> set (part # parts). partSelects p n)}"
    unfolding t s by auto
  ultimately show ?case by blast
qed

lemma floorlog_54: "2 ^ 53 \<le> m \<Longrightarrow> m < 2 ^ 54 \<Longrightarrow> floorlog 2 m = 54"
  by (intro antisym floorlog_leI floorlog_geI) simp_all

lemma roundToDouble_above_2_53: "roundToDouble 9007199254740993 = Finite 9007199254740992"
proof -
  have "floorlog 2 (9007199254740993::nat) = 54" by (rule floorlog_54) simp_all
  then show ?thesis by (simp add: roundToDouble_def Let_def)
qed

lemma roundToDouble_2_53: "roundToDouble 9007199254740992 = Finite 9007199254740992"
proof -
  have "floorlog 2 (9007199254740992::nat) = 54" by (rule floorlog_54) simp_all
  then show ?thesis by (simp add: roundToDouble_def Let_def)
qed

lemmas parseInt_eval = parseInt_def Let_def digitsVal_def digitVal_def roundToDouble_exact

lemma parseInt_above_2_53: "parseInt ''9007199254740993'' = Finite 9007199254740992"
  by (simp add: parseInt_def Let_def digitsVal_def digitVal_def char_eval roundToDouble_above_2_53)

lemma parseInt_2_53: "parseInt ''9007199254740992'' = Finite 9007199254740992"
  by (simp add: parseInt_def Let_def digitsVal_def digitVal_def char_eval roundToDouble_2_53)

lemma rangeLoop_eval:
  "1 \<le> a \<Longrightarrow> mx < 2 ^ 52 \<Longrightarrow> length numbers + nat (min e mx + 1 - a) \<le> maxArrayLength \<Longrightarrow>
   rangeLoop (Finite a) (Finite e) mx numbers = Some (Inr (numbers @ [a .. min e mx]))"
  using rangeLoop_exact [of a mx numbers "Finite e"] by (simp add: rangeTop_def)

lemma parseSelection_lenient: "parseSelection ''2abc'' 10 = Some (Inr [2])"
  by (simp add: parseSelection_def parsePart_def trim_def newSet_def maxArrayLength_def
        maxSetSize_def push_def rangeLoop_eval parseInt_eval char_eval)

lemma parseSelection_example: "parseSelection ''1,3-5,7'' 10 = Some (Inr [1, 3, 4, 5, 7])"
  by (simp add: parseSelection_def parsePart_def trim_def newSet_def maxArrayLength_def
        maxSetSize_def push_def rangeLoop_eval parseInt_eval char_eval)

lemma parseSelection_sample: "parseSelection ''x, 2abc,9-12,0-3,40'' 10 = Some (Inr [2, 9, 10])"
  by (simp add: parseSelection_def parsePart_def trim_def newSet_def maxArrayLength_def
        maxSetSize_def push_def rangeLoop_eval parseInt_eval char_eval)

lemma increment_stalls: "increment (Finite 9007199254740992) = Finite 9007199254740992"
  by (simp add: roundToDouble_above_2_53)

lemma parseSelection_set_limit:
  "parseSelection ''1-16777217'' 16777217 = Some (Inl SetMaximumSizeExceeded)"
proof -
  define top :: int where "top = 16777217"
  define numbers where "numbers = [1 .. top]"
  have t: "rangeTop (Finite top) top = top" by (simp add: rangeTop_def)
  have "rangeLoop (Finite 1) (Finite top) top [] = Some (Inr ([] @ [1 .. rangeTop (Finite top) top]))"
    by (rule rangeLoop_exact) (simp_all add: top_def maxArrayLength_def rangeTop_def)
  then have l: "rangeLoop (Finite 1) (Finite top) top [] = Some (Inr numbers)"
    by (simp add: t numbers_def)
  have pi: "parseInt ''1'' = Finite 1" "parseInt ''16777217'' = Finite top"
    by (simp_all add: parseInt_eval char_eval top_def)
  have "parsePart top [] ''1-16777217'' = Some (Inr numbers)"
    by (simp add: parsePart_def trim_def char_eval pi l) (simp add: top_def)
  then have pl: "partsLoop top [''1-16777217''] [] = Some (Inr numbers)"
    by simp
  have "length (newSet numbers) = card (set numbers)"
    using distinct_card [OF distinct_newSet, of numbers] by (simp add: set_newSet)
  also have "\<dots> = 16777217" by (simp add: numbers_def top_def)
  finally have big: "length (newSet numbers) > maxSetSize" by (simp add: maxSetSize_def)
  have sp: "map trim (take maxArrayLength (splitOn CHR '','' ''1-16777217'')) = [''1-16777217'']"
    by (simp add: trim_def maxArrayLength_def char_eval)
  have "parseSelection ''1-16777217'' top = Some (Inl SetMaximumSizeExceeded)"
    unfolding parseSelection_def sp Let_def pl using big by simp
  then show ?thesis by (simp add: top_def)
qed

text \<open>
  Claim C7, as stated, fails in three ways. The numbers are doubles: the upper bound
  9007199254740993 is read as \<open>2^53\<close>, and at \<open>i = 2^53\<close> the step \<open>i++\<close> leaves \<open>i\<close> as it
  is, so with \<open>max = 2^53\<close> the range loop pushes the same number until the array is full
  and \<open>push\<close> throws. With \<open>max = 16777217\<close> the range "1-16777217" selects more numbers
  than a \<open>Set\<close> can hold, and \<open>new Set\<close> throws. And a malformed token is not always
  ignored: \<open>parseInt\<close> reads the digits a token starts with, so "2abc" selects 2.
\<close>

theorem parseSelection_throws_counterexample:
  "parseSelection ''9007199254740992-9007199254740993'' 9007199254740992
     = Some (Inl InvalidArrayLength) \<and>
   parseSelection ''1-16777217'' 16777217 = Some (Inl SetMaximumSizeExceeded) \<and>
   parseSelection ''2abc'' 10 = Some (Inr [2])"
proof -
  have l: "rangeLoop (Finite 9007199254740992) (Finite 9007199254740992) 9007199254740992 []
           = Some (Inl InvalidArrayLength)"
    by (rule rangeLoop_stall [OF increment_stalls]) simp_all
  have "parsePart 9007199254740992 [] ''9007199254740992-9007199254740993''
        = Some (Inl InvalidArrayLength)"
    by (simp add: parsePart_def trim_def char_eval parseInt_above_2_53 parseInt_2_53 l)
  then have "parseSelection ''9007199254740992-9007199254740993'' 9007199254740992
             = Some (Inl InvalidArrayLength)"
    by (simp add: parseSelection_def trim_def maxArrayLength_def char_eval)
  then show ?thesis using parseSelection_lenient parseSelection_set_limit by simp
qed

text \<open>
  Claim C7, amended. \<open>parseSelection\<close> on "1,3-5,7" with \<open>max = 10\<close> returns \<open>[1, 3, 4, 5, 7]\<close>.
  For every \<open>max\<close> below \<open>2^24\<close> and every input with (length + 1) times \<open>max\<close> at most
  \<open>2^32 - 1\<close>, the function returns and does not throw; the returned list is sorted
  ascending and free of duplicates and holds only numbers between 1 and \<open>max\<close>; and it
  holds exactly the numbers in that range that some part of the input stands for as
  \<open>parseInt\<close> reads it. So a number out of range is dropped, a part without leading digits
  contributes nothing, and a part that starts with digits counts as that number
  whatever follows the digits.
\<close>

theorem parseSelection_spec:
  assumes "mx < 16777216"
      and "(int (length input) + 1) * max 1 mx \<le> 4294967295"
  shows "parseSelection ''1,3-5,7'' 10 = Some (Inr [1, 3, 4, 5, 7]) \<and>
         (\<exists>xs. parseSelection input mx = Some (Inr xs) \<and>
               sorted xs \<and> distinct xs \<and> (\<forall>n \<in> set xs. 1 \<le> n \<and> n \<le> mx) \<and>
               set xs = {n. 1 \<le> n \<and> n \<le> mx \<and>
                            (\<exists>part \<in> set (map trim (splitOn CHR '','' input)). partSelects part n)})"
proof -
  let ?fields = "splitOn CHR '','' input"
  let ?parts = "map trim ?fields"
  let ?sel = "{n. 1 \<le> n \<and> n \<le> mx \<and> (\<exists>part \<in> set ?parts. partSelects part n)}"
  have m52: "mx < 2 ^ 52" using assms(1) by simp
  have lf: "int (length ?fields) \<le> int (length input) + 1"
    using length_splitOn [of "CHR '',''" input] by simp
  have "int (length ?fields) * 1 \<le> (int (length input) + 1) * max 1 mx"
    using lf by (intro mult_mono) simp_all
  then have "length ?fields \<le> maxArrayLength"
    using assms(2) by (simp add: maxArrayLength_def)
  then have tk: "take maxArrayLength ?fields = ?fields" by simp
  have "int (length ?parts) * int (nat mx) \<le> (int (length input) + 1) * max 1 mx"
    using lf by (intro mult_mono) simp_all
  then have "int (length ?parts * nat mx) \<le> int 4294967295"
    using assms(2) by (simp del: of_nat_numeral)
  then have "length ?parts * nat mx \<le> 4294967295"
    by (rule iffD1 [OF of_nat_le_iff])
  then have "length ([] :: int list) + length ?parts * nat mx \<le> maxArrayLength"
    by (simp add: maxArrayLength_def)
  from partsLoop_result [OF m52 this] obtain numbers where
    p: "partsLoop mx ?parts [] = Some (Inr numbers)" and s: "set numbers = ?sel"
    by auto
  have "set (newSet numbers) \<subseteq> {1 .. mx}"
    unfolding set_newSet s by auto
  then have "card (set (newSet numbers)) \<le> card {1 .. mx}"
    by (intro card_mono) simp_all
  then have "length (newSet numbers) \<le> nat mx"
    using distinct_card [OF distinct_newSet, of numbers] by simp
  then have sz: "\<not> length (newSet numbers) > maxSetSize"
    using assms(1) by (simp add: maxSetSize_def)
  have r: "parseSelection input mx = Some (Inr (sort (newSet numbers)))"
    using sz by (simp add: parseSelection_def tk p Let_def)
  have "sorted (sort (newSet numbers))" "distinct (sort (newSet numbers))"
    "set (sort (newSet numbers)) = ?sel"
    by (simp_all add: distinct_newSet set_newSet s)
  then have "\<exists>xs. parseSelection input mx = Some (Inr xs) \<and>
               sorted xs \<and> distinct xs \<and> (\<forall>n \<in> set xs. 1 \<le> n \<and> n \<le> mx) \<and> set xs = ?sel"
    using r by (intro exI [of _ "sort (newSet numbers)"]) auto
  with parseSelection_example show ?thesis by blast
qed

theorem parseSelection_spec_witness:
  "(10 :: int) < 16777216 \<and>
   (int (length ''x, 2abc,9-12,0-3,40'') + 1) * max 1 10 \<le> 4294967295 \<and>
   parseSelection ''x, 2abc,9-12,0-3,40'' 10 = Some (Inr [2, 9, 10]) \<and>
   sorted [2, 9, 10 :: int] \<and> distinct [2, 9, 10 :: int] \<and>
   (\<exists>part \<in> set (map trim (splitOn CHR '','' ''x, 2abc,9-12,0-3,40'')). partSelects part 9) \<and>
   \<not> (\<exists>part \<in> set (map trim (splitOn CHR '','' ''x, 2abc,9-12,0-3,40'')). partSelects part 3)"
proof -
  let ?parts = "set (map trim (splitOn CHR '','' ''x, 2abc,9-12,0-3,40''))"
  have h1: "(10 :: int) < 16777216" by simp
  have h2: "(int (length ''x, 2abc,9-12,0-3,40'') + 1) * max 1 10 \<le> 4294967295" by simp
  from parseSelection_spec [OF h1 h2]
  obtain xs where x: "parseSelection ''x, 2abc,9-12,0-3,40'' 10 = Some (Inr xs)"
    and s: "set xs = {n. 1 \<le> n \<and> n \<le> 10 \<and> (\<exists>part \<in> ?parts. partSelects part n)}"
    by blast
  have xs: "xs = [2, 9, 10]" using x parseSelection_sample by simp
  have m: "(n \<in> set [2, 9, 10]) = (1 \<le> n \<and> n \<le> 10 \<and> (\<exists>part \<in> ?parts. partSelects part n))"
    for n :: int
    using s unfolding xs by blast
  have "\<exists>part \<in> ?parts. partSelects part 9"
    using m [of 9] by simp
  moreover have "\<not> (\<exists>part \<in> ?parts. partSelects part 3)"
    using m [of 3] by simp
  ultimately show ?thesis using parseSelection_sample h2 by simp
qed


subsection \<open>Categorizer\<close>

lemma valuesLoop_iff:
  "valuesLoop subject vs matched =
     (matched \<or> (\<exists>v \<in> set vs. includes_str subject (toLowerCase v)))"
  by (induction vs) auto

lemma rulesLoop_iff:
  "rulesLoop (ruleSubject parse result domain) (ruleSubject parse result keyword)
       (ruleSubject parse result url_pattern) rs matched
   = (matched \<or> (\<exists>rule \<in> set rs. ruleMatches parse result rule))"
proof (induction rs arbitrary: matched)
  case Nil
  then show ?case by simp
next
  case (Cons rule rs)
  show ?case
  proof (cases matched)
    case True
    then show ?thesis by simp
  next
    case False
    then show ?thesis
      by (cases "rule_type rule")
         (simp_all add: Cons.IH valuesLoop_iff ruleMatches_def ruleValues_def Let_def)
  qed
qed

lemma categoriesLoop_eq:
  "categoriesLoop (ruleSubject parse result domain) (ruleSubject parse result keyword)
       (ruleSubject parse result url_pattern) cats matches
   = matches @ matchingCategories parse cats result"
  by (induction cats arbitrary: matches)
     (simp_all add: matchingCategories_def rulesLoop_iff categoryMatches_def)

lemma matchCategories_eq:
  "matchCategories parse cats result =
     (if matchingCategories parse cats result = [] then [''General'']
      else matchingCategories parse cats result)"
proof -
  have "matchCategories parse cats result =
        (let matches = categoriesLoop (ruleSubject parse result domain)
                         (ruleSubject parse result keyword)
                         (ruleSubject parse result url_pattern) cats []
         in if length matches = 0 then matches @ [''General''] else matches)"
    by (simp add: matchCategories_def ruleSubject_def Let_def)
  then show ?thesis
    by (simp add: categoriesLoop_eq Let_def)
qed

text \<open>
  Claim C6. \<open>categorize\<close> returns one element per input result, and the categories of every
  element are non-empty: when some category matches the result (one of its rules has a
  value that occurs in the host name, the text or the URL, as the rule's type says) they
  are the names of all matching categories in the order of the category list, and when
  none matches they are the one-element list \<open>["General"]\<close>.
\<close>

theorem categorize_categories:
  "length (categorize parse cats rs) = length rs \<and>
   (\<forall>i < length rs.
      categories (categorize parse cats rs ! i) \<noteq> [] \<and>
      categories (categorize parse cats rs ! i) =
        (if \<exists>cat \<in> set cats. categoryMatches parse (rs ! i) cat
         then map Category.name (filter (categoryMatches parse (rs ! i)) cats)
         else [''General'']))"
proof -
  have len: "length (categorize parse cats rs) = length rs"
    by (simp add: categorize_def)
  have "categories (categorize parse cats rs ! i) \<noteq> [] \<and>
        categories (categorize parse cats rs ! i) =
          (if \<exists>cat \<in> set cats. categoryMatches parse (rs ! i) cat
           then map Category.name (filter (categoryMatches parse (rs ! i)) cats)
           else [''General''])" if i: "i < length rs" for i
  proof -
    have c: "categories (categorize parse cats rs ! i) =
             matchCategories parse cats (rs ! i)"
      using i by (simp add: categorize_def ScoredResult.defs CategorizedResult.defs)
    have e: "(matchingCategories parse cats (rs ! i) = []) =
             (\<not> (\<exists>cat \<in> set cats. categoryMatches parse (rs ! i) cat))"
      by (auto simp: matchingCategories_def filter_empty_conv)
    show ?thesis
      unfolding c matchCategories_eq e
      by (auto simp: matchingCategories_def filter_empty_conv)
  qed
  with len show ?thesis by blast
qed

theorem categorize_categories_witness:
  "(0::nat) < length [repoResult, pageResult] \<and> (1::nat) < length [repoResult, pageResult] \<and>
   (\<exists>cat \<in> set customCategories. categoryMatches parseURL repoResult cat) \<and>
   \<not> (\<exists>cat \<in> set customCategories. categoryMatches parseURL pageResult cat) \<and>
   map categories (categorize parseURL customCategories [repoResult, pageResult])
     = [[''Repository''], [''General'']]"
proof -
  let ?rs = "[repoResult, pageResult]"
  have p1: "parseURL (url repoResult) =
            Some \<lparr>protocol = ''https:'', hostname = ''github.com'', pathname = ''/ts'',
                   searchParams = [], hash = []\<rparr>"
    by (simp add: repoResult_def parseURL_eval char_eval)
  have p2: "parseURL (url pageResult) =
            Some \<lparr>protocol = ''https:'', hostname = ''a.com'', pathname = ''/b'',
                   searchParams = [], hash = []\<rparr>"
    by (simp add: pageResult_def parseURL_eval char_eval)
  have m1: "matchCategories parseURL customCategories repoResult = [''Repository'']"
    unfolding matchCategories_def p1
    by (simp add: repoResult_def customCategories_def char_eval)
  have m2: "matchCategories parseURL customCategories pageResult = [''General'']"
    unfolding matchCategories_def p2
    by (simp add: pageResult_def customCategories_def char_eval)
  have m: "map categories (categorize parseURL customCategories ?rs) = [[''Repository''], [''General'']]"
    by (simp add: categorize_def m1 m2 ScoredResult.defs CategorizedResult.defs)
  have c0: "categories (categorize parseURL customCategories ?rs ! 0) = [''Repository'']"
   and c1: "categories (categorize parseURL customCategories ?rs ! 1) = [''General'']"
    using m by (simp_all add: categorize_def)
  have t: "\<forall>i < length ?rs.
      categories (categorize parseURL customCategories ?rs ! i) \<noteq> [] \<and>
      categories (categorize parseURL customCategories ?rs ! i) =
        (if \<exists>cat \<in> set customCategories. categoryMatches parseURL (?rs ! i) cat
         then map Category.name (filter (categoryMatches parseURL (?rs ! i)) customCategories)
         else [''General''])"
    using categorize_categories [of parseURL customCategories ?rs] by blast
  have a0: "\<exists>cat \<in> set customCategories. categoryMatches parseURL repoResult cat"
  proof (rule ccontr)
    assume n: "\<not> ?thesis"
    from t have "categories (categorize parseURL customCategories ?rs ! 0) =
        (if \<exists>cat \<in> set customCategories. categoryMatches parseURL (?rs ! 0) cat
         then map Category.name (filter (categoryMatches parseURL (?rs ! 0)) customCategories)
         else [''General''])"
      by simp
    with n c0 show False by simp
  qed
  have a1: "\<not> (\<exists>cat \<in> set customCategories. categoryMatches parseURL pageResult cat)"
  proof
    assume y: "\<exists>cat \<in> set customCategories. categoryMatches parseURL pageResult cat"
    from t have "categories (categorize parseURL customCategories ?rs ! 1) =
        (if \<exists>cat \<in> set customCategories. categoryMatches parseURL (?rs ! 1) cat
         then map Category.name (filter (categoryMatches parseURL (?rs ! 1)) customCategories)
         else [''General''])"
      by simp
    with y c1 have "[''General''] = map Category.name (filter (categoryMatches parseURL pageResult) customCategories)"
      by simp
    then show False
      by (auto simp: customCategories_def split: if_splits)
  qed
  from a0 a1 m show ?thesis by simp
qed


subsection \<open>Heuristic scorer\<close>

text \<open>
  Claim C10. The scored result that \<open>Scorer.score\<close> returns has the url, title, snippet,
  source, timestamp and metadata of the input result: without its score field it is the
  input result.
\<close>

theorem Scorer_score_frame:
  "url (Scorer_score parse config now result query) = url result \<and>
   title (Scorer_score parse config now result query) = title result \<and>
   snippet (Scorer_score parse config now result query) = snippet result \<and>
   source (Scorer_score parse config now result query) = source result \<and>
   timestamp (Scorer_score parse config now result query) = timestamp result \<and>
   metadata (Scorer_score parse config now result query) = metadata result \<and>
   SearchResult.truncate (Scorer_score parse config now result query) = result"
  by (simp add: Scorer_score_def Let_def SearchResult.defs ScoredResult.defs)

lemma recencyScore_bounds:
  "ts \<le> now \<Longrightarrow> 0.1 \<le> recencyScore now ts \<and> recencyScore now ts \<le> 1"
  by (simp add: recencyScore_def Let_def)

lemma domainScore_bounds:
  "0.3 \<le> domainScore parse config u \<and> domainScore parse config u \<le> 1"
  by (simp add: domainScore_def Let_def split: option.splits)

lemma relevanceScore_bounds:
  "0 \<le> relevanceScore result query \<and> relevanceScore result query \<le> 1"
proof -
  define q where "q = Scorer_tokenize query"
  define a where
    "a = real (length (filter (\<lambda>term. term \<in> set (Scorer_tokenize (title result))) q)) /
         real (length q)"
  define b where
    "b = real (length (filter (\<lambda>term. term \<in> set (Scorer_tokenize (snippet result))) q)) /
         real (length q)"
  have a: "0 \<le> a \<and> a \<le> 1"
    unfolding a_def by (simp add: divide_le_eq_1)
  have b: "0 \<le> b \<and> b \<le> 1"
    unfolding b_def by (simp add: divide_le_eq_1)
  have c: "0 \<le> a * 0.6 + b * 0.4 \<and> a * 0.6 + b * 0.4 \<le> 1"
    using a b by simp
  show ?thesis
    using c
    unfolding relevanceScore_def Let_def q_def [symmetric] a_def [symmetric] b_def [symmetric]
    by auto
qed

lemma weighted_sum_bounds:
  fixes a b c w1 w2 w3 :: real
  assumes "0 \<le> a" "a \<le> 1" "0 \<le> b" "b \<le> 1" "0 \<le> c" "c \<le> 1"
      and "0 \<le> w1" "0 \<le> w2" "0 \<le> w3" "w1 + w2 + w3 \<le> 1"
  shows "0 \<le> a * w1 + b * w2 + c * w3 \<and> a * w1 + b * w2 + c * w3 \<le> 1"
proof -
  have "a * w1 \<le> w1" "b * w2 \<le> w2" "c * w3 \<le> w3"
    using assms by (simp_all add: mult_left_le_one_le)
  moreover have "0 \<le> a * w1" "0 \<le> b * w2" "0 \<le> c * w3"
    using assms by simp_all
  ultimately show ?thesis using assms(10) by linarith
qed

lemma score_Scorer_score:
  "ScoredResult.score (Scorer_score parse config now result query) =
     recencyScore now (timestamp result) * ScoringWeights.recency (weights config) +
     domainScore parse config (url result) * ScoringWeights.domainAuthority (weights config) +
     relevanceScore result query * keywordRelevance (weights config)"
  by (simp add: Scorer_score_def Let_def SearchResult.defs ScoredResult.defs)

lemma Scorer_score_bounds:
  assumes "0 \<le> ScoringWeights.recency (weights config)"
      and "0 \<le> ScoringWeights.domainAuthority (weights config)"
      and "0 \<le> keywordRelevance (weights config)"
      and "ScoringWeights.recency (weights config) + ScoringWeights.domainAuthority (weights config)
             + keywordRelevance (weights config) \<le> 1"
      and "timestamp result \<le> now"
  shows "0 \<le> ScoredResult.score (Scorer_score parse config now result query) \<and>
         ScoredResult.score (Scorer_score parse config now result query) \<le> 1"
proof -
  have r: "0 \<le> recencyScore now (timestamp result)" "recencyScore now (timestamp result) \<le> 1"
    using recencyScore_bounds [OF assms(5)] by simp_all
  have d: "0 \<le> domainScore parse config (url result)" "domainScore parse config (url result) \<le> 1"
    using domainScore_bounds [of parse config "url result"] by simp_all
  have v: "0 \<le> relevanceScore result query" "relevanceScore result query \<le> 1"
    using relevanceScore_bounds [of result query] by simp_all
  show ?thesis
    unfolding score_Scorer_score
    by (rule weighted_sum_bounds [OF r d v assms(1-4)])
qed

lemma githubResult_parse:
  "parseURL (url githubResult) =
     Some \<lparr>protocol = ''https:'', hostname = ''github.com'', pathname = ''/typescript'',
            searchParams = [], hash = []\<rparr>"
  by (simp add: githubResult_def parseURL_eval char_eval)

lemma githubResult_domain: "domainScore parseURL unitWeightScoring (url githubResult) = 1"
  unfolding domainScore_def githubResult_parse by (simp add: unitWeightScoring_def Let_def char_eval)

lemma githubResult_relevance: "relevanceScore githubResult ''typescript'' = 1"
  by (simp add: relevanceScore_def Scorer_tokenize_def replaceNonWord_def githubResult_def
        Let_def char_eval)

text \<open>
  Claim C2, as stated, fails: the weights are used as configured and the sum is not
  clamped. With the three weights at 1 (each is allowed to lie between 0 and 1), a fresh
  result of a trusted domain whose title and snippet match the query scores 3.
\<close>

theorem Scorer_score_unit_interval_counterexample:
  "ScoredResult.score (Scorer_score parseURL unitWeightScoring 0 githubResult ''typescript'') = 3 \<and>
   \<not> ScoredResult.score (Scorer_score parseURL unitWeightScoring 0 githubResult ''typescript'') \<le> 1"
proof -
  have "ScoredResult.score (Scorer_score parseURL unitWeightScoring 0 githubResult ''typescript'') = 3"
    by (simp add: score_Scorer_score githubResult_domain githubResult_relevance)
       (simp add: unitWeightScoring_def githubResult_def recencyScore_def)
  then show ?thesis by simp
qed

text \<open>
  Claim C2, amended. When the three weights are non-negative and sum to at most 1, and no
  result carries a timestamp later than the time of scoring, the score that \<open>Scorer.score\<close>
  gives to each result lies between 0 and 1, and so does the score of every element that
  \<open>Scorer.scoreAll\<close> returns.
\<close>

theorem Scorer_score_in_unit_interval:
  assumes "0 \<le> ScoringWeights.recency (weights config)"
      and "0 \<le> ScoringWeights.domainAuthority (weights config)"
      and "0 \<le> keywordRelevance (weights config)"
      and "ScoringWeights.recency (weights config) + ScoringWeights.domainAuthority (weights config)
             + keywordRelevance (weights config) \<le> 1"
      and "\<forall>r \<in> set rs. timestamp r \<le> now"
  shows "(\<forall>r \<in> set rs.
            0 \<le> ScoredResult.score (Scorer_score parse config now r query) \<and>
            ScoredResult.score (Scorer_score parse config now r query) \<le> 1) \<and>
         (\<forall>s \<in> set (Scorer_scoreAll parse config now rs query).
            0 \<le> ScoredResult.score s \<and> ScoredResult.score s \<le> 1)"
proof -
  have one: "0 \<le> ScoredResult.score (Scorer_score parse config now r query) \<and>
             ScoredResult.score (Scorer_score parse config now r query) \<le> 1"
    if "r \<in> set rs" for r
    using Scorer_score_bounds [OF assms(1-4)] assms(5) that by blast
  moreover have "set (Scorer_scoreAll parse config now rs query) =
                 (\<lambda>r. Scorer_score parse config now r query) ` set rs"
    by (simp add: Scorer_scoreAll_def)
  ultimately show ?thesis by auto
qed

theorem Scorer_score_in_unit_interval_witness:
  "0 \<le> ScoringWeights.recency (weights defaultScoring) \<and>
   0 \<le> ScoringWeights.domainAuthority (weights defaultScoring) \<and>
   0 \<le> keywordRelevance (weights defaultScoring) \<and>
   ScoringWeights.recency (weights defaultScoring) + ScoringWeights.domainAuthority (weights defaultScoring)
     + keywordRelevance (weights defaultScoring) \<le> 1 \<and>
   timestamp githubResult \<le> 86400000 \<and>
   0 \<le> ScoredResult.score (Scorer_score parseURL defaultScoring 86400000 githubResult ''typescript'') \<and>
   ScoredResult.score (Scorer_score parseURL defaultScoring 86400000 githubResult ''typescript'') \<le> 1 \<and>
   0 \<le> ScoredResult.score (hd (Scorer_scoreAll parseURL defaultScoring 86400000 [githubResult] ''typescript'')) \<and>
   ScoredResult.score (hd (Scorer_scoreAll parseURL defaultScoring 86400000 [githubResult] ''typescript'')) \<le> 1"
proof -
  have h1: "0 \<le> ScoringWeights.recency (weights defaultScoring)"
   and h2: "0 \<le> ScoringWeights.domainAuthority (weights defaultScoring)"
   and h3: "0 \<le> keywordRelevance (weights defaultScoring)"
   and h4: "ScoringWeights.recency (weights defaultScoring) + ScoringWeights.domainAuthority (weights defaultScoring)
              + keywordRelevance (weights defaultScoring) \<le> 1"
    by (simp_all add: defaultScoring_def)
  have h5: "\<forall>r \<in> set [githubResult]. timestamp r \<le> 86400000"
    by (simp add: githubResult_def)
  from Scorer_score_in_unit_interval [OF h1 h2 h3 h4 h5, of parseURL "''typescript''"] h1 h2 h3 h4 h5
  show ?thesis by (simp add: Scorer_scoreAll_def)
qed


subsection \<open>Hybrid BM25 scorer\<close>














subsection \<open>URL normalization\<close>












subsection \<open>Deduplicator\<close>

lemma firstOccurrences_Nil: "firstOccurrences key [] = []"
  by (simp add: firstOccurrences_def)

lemma firstOccurrences_snoc:
  "firstOccurrences key (xs @ [x]) =
     firstOccurrences key xs @ (if key x \<in> key ` set xs then [] else [x])"
proof -
  let ?n = "length xs"
  let ?P = "\<lambda>ys i. \<forall>j<i. key (ys ! j) \<noteq> key (ys ! i)"
  have old: "filter (?P (xs @ [x])) [0 ..< ?n] = filter (?P xs) [0 ..< ?n]"
    by (rule filter_cong) (auto simp: nth_append)
  have m: "map (\<lambda>i. (xs @ [x]) ! i) (filter (?P xs) [0 ..< ?n]) =
           map (\<lambda>i. xs ! i) (filter (?P xs) [0 ..< ?n])"
    by (rule map_cong) (auto simp: nth_append)
  have last: "?P (xs @ [x]) ?n \<longleftrightarrow> key x \<notin> key ` set xs"
    by (auto simp: nth_append in_set_conv_nth image_iff) (metis nth_mem)
  have "firstOccurrences key (xs @ [x]) =
        map (\<lambda>i. (xs @ [x]) ! i) (filter (?P (xs @ [x])) ([0 ..< ?n] @ [?n]))"
    by (simp add: firstOccurrences_def)
  also have "\<dots> = map (\<lambda>i. xs ! i) (filter (?P xs) [0 ..< ?n]) @
                   (if key x \<in> key ` set xs then [] else [x])"
    using last by (simp add: old m del: upt_Suc)
  finally show ?thesis by (simp add: firstOccurrences_def)
qed

lemma set_firstOccurrences_subset: "set (firstOccurrences key xs) \<subseteq> set xs"
  by (auto simp: firstOccurrences_def)

lemma subseq_firstOccurrences: "subseq (firstOccurrences key xs) xs"
proof (induction xs rule: rev_induct)
  case Nil
  then show ?case by (simp add: firstOccurrences_Nil)
next
  case (snoc x xs)
  then show ?case
    by (auto simp: firstOccurrences_snoc intro: list_emb_append_mono subseq_rev_drop_many)
qed




lemma generateKey_fields:
  "url r = url r' \<Longrightarrow> title r = title r' \<Longrightarrow> snippet r = snippet r' \<Longrightarrow>
   generateKey parse config r = generateKey parse config r'"
  by (simp add: generateKey_def)

lemma sameFields_refl: "sameFields h h"
  by (simp add: sameFields_def)

lemma sameFields_trans: "sameFields h h' \<Longrightarrow> sameFields h' h'' \<Longrightarrow> sameFields h h''"
  by (simp add: sameFields_def)

lemma sameFields_key: "sameFields h h' \<Longrightarrow> keyOf parse config h' a = keyOf parse config h a"
  unfolding keyOf_def by (rule generateKey_fields) (simp_all add: sameFields_def)

lemma objects_mergeDuplicate_other: "a \<noteq> e \<Longrightarrow> objects (mergeDuplicate h e r) a = objects h a"
  by (simp add: mergeDuplicate_def Let_def split: prod.splits)

lemma objects_mergeDuplicate_self:
  "\<exists>bag. objects (mergeDuplicate h e r) e = (objects h e) \<lparr> metadata := Some bag \<rparr>"
  by (auto simp: mergeDuplicate_def Let_def split: prod.splits)

lemma sameFields_mergeDuplicate: "sameFields h (mergeDuplicate h e r)"
proof -
  have "url (objects (mergeDuplicate h e r) a) = url (objects h a) \<and>
        title (objects (mergeDuplicate h e r) a) = title (objects h a) \<and>
        snippet (objects (mergeDuplicate h e r) a) = snippet (objects h a) \<and>
        source (objects (mergeDuplicate h e r) a) = source (objects h a) \<and>
        timestamp (objects (mergeDuplicate h e r) a) = timestamp (objects h a)" for a
  proof (cases "a = e")
    case True
    obtain bag where "objects (mergeDuplicate h e r) e = (objects h e) \<lparr> metadata := Some bag \<rparr>"
      using objects_mergeDuplicate_self by blast
    with True show ?thesis by simp
  next
    case False
    then show ?thesis by (simp add: objects_mergeDuplicate_other)
  qed
  then show ?thesis by (simp add: sameFields_def)
qed

lemma fold_snoc: "fold f (xs @ [x]) s = f x (fold f xs s)"
  by simp

lemma dedup_keys_invariant:
  fixes parse config h xs
  defines "st \<equiv> fold (dedupStep parse config) xs (initialState h)"
  shows "unique st = firstOccurrences (keyOf parse config h) xs \<and>
         (\<forall>k. seen st k = None \<longleftrightarrow> k \<notin> keyOf parse config h ` set xs) \<and>
         (\<forall>k e. seen st k = Some e \<longrightarrow> e \<in> set (unique st) \<and> keyOf parse config h e = k) \<and>
         sameFields h (hp st)"
  unfolding st_def
proof (induction xs rule: rev_induct)
  case Nil
  then show ?case
    by (simp add: initialState_def firstOccurrences_Nil sameFields_refl)
next
  case (snoc x xs)
  let ?K = "keyOf parse config h"
  let ?st = "fold (dedupStep parse config) xs (initialState h)"
  have u: "unique ?st = firstOccurrences ?K xs"
   and n: "\<And>k. seen ?st k = None \<longleftrightarrow> k \<notin> ?K ` set xs"
   and s: "\<And>k e. seen ?st k = Some e \<Longrightarrow> e \<in> set (unique ?st) \<and> ?K e = k"
   and f: "sameFields h (hp ?st)"
    using snoc.IH by blast+
  have key: "generateKey parse config (objects (hp ?st) x) = ?K x"
    using sameFields_key [OF f, of parse config x] by (simp add: keyOf_def)
  show ?case
  proof (cases "seen ?st (?K x)")
    case None
    then have new: "?K x \<notin> ?K ` set xs" using n by simp
    have step: "dedupStep parse config x ?st =
                ?st \<lparr> seen := (seen ?st)(?K x \<mapsto> x), unique := unique ?st @ [x] \<rparr>"
      using None by (simp add: dedupStep_def key Let_def)
    show ?thesis
      unfolding fold_snoc step
      using new u n s f by (auto simp: firstOccurrences_snoc)
  next
    case (Some e)
    then have old: "?K x \<in> ?K ` set xs" using n [of "?K x"] by auto
    have step: "dedupStep parse config x ?st =
                ?st \<lparr> duplicates := duplicates ?st + 1, hp := mergeDuplicate (hp ?st) e x \<rparr>"
      using Some by (simp add: dedupStep_def key Let_def)
    have f': "sameFields h (mergeDuplicate (hp ?st) e x)"
      using f sameFields_mergeDuplicate by (rule sameFields_trans)
    show ?thesis
      unfolding fold_snoc step
      using old u n s f' by (auto simp: firstOccurrences_snoc)
  qed
qed

lemma fp_page: "fingerprint ''Test Content here'' = ''contentheretest''"
  by (simp add: fingerprint_def trigramsOf_def newSet_def replaceNonWord_def trim_def Let_def char_eval)

lemma fp_other: "fingerprint ''Other Text'' = ''other text''"
  by (simp add: fingerprint_def trigramsOf_def newSet_def replaceNonWord_def trim_def Let_def char_eval)

lemma norm_brave: "normalizeUrl parseURL ''https://example.com/page?utm_source=g'' = ''https://example.com/page''"
proof -
  have "parseURL ''https://example.com/page?utm_source=g'' =
     Some \<lparr>protocol = ''https:'', hostname = ''example.com'', pathname = ''/page'',
            searchParams = [(''utm_source'', ''g'')], hash = []\<rparr>"
    by (simp add: parseURL_eval char_eval)
  then show ?thesis
    by (simp add: normalizeUrl_eval Let_def char_eval)
qed

lemma norm_ddg: "normalizeUrl parseURL ''https://www.example.com/page'' = ''https://example.com/page''"
proof -
  have "parseURL ''https://www.example.com/page'' =
     Some \<lparr>protocol = ''https:'', hostname = ''www.example.com'', pathname = ''/page'',
            searchParams = [], hash = []\<rparr>"
    by (simp add: parseURL_eval char_eval)
  then show ?thesis
    by (simp add: normalizeUrl_eval Let_def char_eval)
qed

lemma norm_other: "normalizeUrl parseURL ''https://example.com/other'' = ''https://example.com/other''"
proof -
  have "parseURL ''https://example.com/other'' =
     Some \<lparr>protocol = ''https:'', hostname = ''example.com'', pathname = ''/other'',
            searchParams = [], hash = []\<rparr>"
    by (simp add: parseURL_eval char_eval)
  then show ?thesis
    by (simp add: normalizeUrl_eval Let_def char_eval)
qed

lemma sample_keys:
  "keyOf parseURL defaultDeduplication sampleHeap 10 = ''https://example.com/page:contentheretest''"
  "keyOf parseURL defaultDeduplication sampleHeap 11 = ''https://example.com/page:contentheretest''"
  "keyOf parseURL defaultDeduplication sampleHeap 12 = ''https://example.com/other:other text''"
  by (simp_all add: keyOf_def generateKey_def sampleHeap_def defaultDeduplication_def
        pageFromBrave_def pageFromDuckduckgo_def otherPage_def
        norm_brave norm_ddg norm_other fp_page fp_other)

lemma sample_first: "firstOccurrences (keyOf parseURL defaultDeduplication sampleHeap) [10, 11, 12] = [10, 12]"
proof -
  have "firstOccurrences (keyOf parseURL defaultDeduplication sampleHeap) (([] @ [10]) @ [11]) = [10]"
    unfolding firstOccurrences_snoc by (simp add: sample_keys firstOccurrences_Nil)
  then have "firstOccurrences (keyOf parseURL defaultDeduplication sampleHeap) ([10, 11] @ [12]) = [10, 12]"
    unfolding firstOccurrences_snoc [of _ "[10, 11]"] by (simp add: sample_keys)
  then show ?thesis by simp
qed

text \<open>
  Claim C9. \<open>deduplicate\<close> returns the references of the input list that are the first
  with their deduplication key, in the order of the input: a subsequence of the input,
  so not longer than it and made of elements of it. The objects behind all references
  keep their url, title, snippet, source and timestamp; the keys are those of the input.
\<close>

theorem deduplicate_first_occurrences:
  "fst (deduplicate parse config h rs) = firstOccurrences (keyOf parse config h) rs \<and>
   subseq (fst (deduplicate parse config h rs)) rs \<and>
   length (fst (deduplicate parse config h rs)) \<le> length rs \<and>
   set (fst (deduplicate parse config h rs)) \<subseteq> set rs \<and>
   sameFields h (snd (deduplicate parse config h rs))"
proof -
  have d: "deduplicate parse config h rs =
           (unique (fold (dedupStep parse config) rs (initialState h)),
            hp (fold (dedupStep parse config) rs (initialState h)))"
    by (simp add: deduplicate_def initialState_def Let_def)
  have u: "fst (deduplicate parse config h rs) = firstOccurrences (keyOf parse config h) rs"
    and f: "sameFields h (snd (deduplicate parse config h rs))"
    unfolding d using dedup_keys_invariant [of parse config rs h] by simp_all
  have sub: "subseq (fst (deduplicate parse config h rs)) rs"
    unfolding u by (rule subseq_firstOccurrences)
  then have "length (fst (deduplicate parse config h rs)) \<le> length rs"
    by (rule list_emb_length)
  moreover have "set (fst (deduplicate parse config h rs)) \<subseteq> set rs"
    unfolding u by (rule set_firstOccurrences_subset)
  ultimately show ?thesis using u f sub by blast
qed

theorem deduplicate_first_occurrences_witness:
  "fst (deduplicate parseURL defaultDeduplication sampleHeap [10, 11, 12]) = [10, 12] \<and>
   firstOccurrences (keyOf parseURL defaultDeduplication sampleHeap) [10, 11, 12] = [10, 12] \<and>
   keyOf parseURL defaultDeduplication sampleHeap 11 = keyOf parseURL defaultDeduplication sampleHeap 10 \<and>
   keyOf parseURL defaultDeduplication sampleHeap 12 \<noteq> keyOf parseURL defaultDeduplication sampleHeap 10 \<and>
   subseq (fst (deduplicate parseURL defaultDeduplication sampleHeap [10, 11, 12])) [10, 11, 12]"
  using deduplicate_first_occurrences [of parseURL defaultDeduplication sampleHeap "[10, 11, 12]"]
  by (simp add: sample_first sample_keys)












subsection \<open>Fetcher\<close>

declare pRetry.simps [simp del]

lemma pRetry_first_success: "run attempt = Inr v \<Longrightarrow> pRetry policy run attempt k recorded = Inr v"
  by (subst pRetry.simps) simp

lemma pRetry_all_fail:
  "\<forall>n. isl (run n) \<Longrightarrow> isl (pRetry policy run attempt k recorded)"
proof (induction k arbitrary: attempt recorded)
  case 0
  then have "isl (run attempt)" by blast
  then obtain e where "run attempt = Inl e" by (cases "run attempt") auto
  then show ?case by (subst pRetry.simps) simp
next
  case (Suc k)
  from Suc.prems have "isl (run attempt)" by blast
  then obtain e where "run attempt = Inl e" by (cases "run attempt") auto
  then show ?case
    using Suc.IH [OF Suc.prems, of "Suc attempt" "recorded @ [e]"]
    by (subst pRetry.simps) simp
qed

lemma pRetryWith_contract: "pRetryContract (pRetryWith policy)"
  by (simp add: pRetryContract_def pRetryWith_def pRetry_first_success pRetry_all_fail)

lemma providerTag_inj: "providerTag p = providerTag q \<Longrightarrow> p = q"
  by (cases p; cases q) simp_all

lemma getCacheKey_name:
  "p \<noteq> q \<Longrightarrow> getCacheKey optionsKey p query options \<noteq> getCacheKey optionsKey q query' options'"
  by (cases p; cases q) (simp_all add: getCacheKey_def)

lemma fetchFromProvider_fail:
  assumes "retry (\<lambda>n. search p n query options) (retries fetcher) = Inl e"
      and "\<not> (hasCache fetcher \<and> cacheEnabled fetcher) \<or>
           store (getCacheKey optionsKey (Provider.name p) query options) = None"
  shows "fetchFromProvider retry optionsKey fetcher store p query options = (Inl e, store)"
  using assms(2) by (auto simp: fetchFromProvider_def Let_def assms(1))

lemma fetchFromProvider_ok:
  assumes "retry (\<lambda>n. search p n query options) (retries fetcher) = Inr found" "found \<noteq> []"
      and "\<not> (hasCache fetcher \<and> cacheEnabled fetcher) \<or>
           store (getCacheKey optionsKey (Provider.name p) query options) = None \<or>
           store (getCacheKey optionsKey (Provider.name p) query options) = Some found"
  shows "fetchFromProvider retry optionsKey fetcher store p query options =
           (Inr found,
            if hasCache fetcher \<and> cacheEnabled fetcher
            then store(getCacheKey optionsKey (Provider.name p) query options \<mapsto> found) else store)"
proof (cases "hasCache fetcher \<and> cacheEnabled fetcher")
  case False
  then show ?thesis using assms(2) by (auto simp: fetchFromProvider_def Let_def assms(1))
next
  case True
  let ?k = "getCacheKey optionsKey (Provider.name p) query options"
  from assms(3) True consider "store ?k = None" | "store ?k = Some found" by auto
  then show ?thesis
  proof cases
    case 1
    then show ?thesis using True assms(2) by (simp add: fetchFromProvider_def Let_def assms(1))
  next
    case 2
    then have "store(?k \<mapsto> found) = store" by (rule map_upd_triv)
    then show ?thesis using True 2 by (simp add: fetchFromProvider_def Let_def)
  qed
qed

text \<open>
  Claim C4. Let the retry wrapper resolve with the value of a first call that resolves and
  reject when every call rejects, and let the fetcher have a concurrency of at least 1.
  When the fetcher uses a cache, let the two providers have different names and let the
  cache hold, under their keys, only what the fetcher has written: a non-empty list that
  the provider's search resolved to, so nothing for a provider whose search always
  fails. For one provider whose search rejects at every call and one whose search
  resolves to a non-empty list, \<open>fetchAll\<close> returns normally, in whichever order the two
  tasks settle: the results are the list of the succeeding provider, \<open>errors\<close> has exactly
  one entry, which carries the failing provider's name and the message and status code
  of the error the retry wrapper rejected with, and \<open>providers\<close> holds the succeeding
  provider only.
\<close>

theorem fetchAll_isolates_failure:
  assumes lib: "pRetryContract retry"
      and conc: "1 \<le> concurrency fetcher"
      and fails: "\<forall>n. isl (search pFail n query options)"
      and works: "\<forall>n. search pOk n query options = Inr found"
      and found: "found \<noteq> []"
      and cache: "hasCache fetcher \<and> cacheEnabled fetcher \<longrightarrow>
                  Provider.name pFail \<noteq> Provider.name pOk \<and>
                  cacheWrittenBy optionsKey store pFail query options \<and>
                  cacheWrittenBy optionsKey store pOk query options"
      and order: "settled = [pFail, pOk] \<or> settled = [pOk, pFail]"
  shows "\<exists>e store'.
           retry (\<lambda>n. search pFail n query options) (retries fetcher) = Inl e \<and>
           fetchAll retry optionsKey fetcher store settled query options =
             Inr (\<lparr> results = found,
                     errors = [\<lparr> provider = Provider.name pFail, message = errorMessage e,
                                 statusCode = errorStatusCode e \<rparr>],
                     providers = [Provider.name pOk] \<rparr>, store')"
proof -
  let ?runF = "\<lambda>n. search pFail n query options"
  let ?runO = "\<lambda>n. search pOk n query options"
  have "isl (retry ?runF (retries fetcher))"
    using lib fails unfolding pRetryContract_def by simp
  then obtain e where e: "retry ?runF (retries fetcher) = Inl e"
    by (cases "retry ?runF (retries fetcher)") auto
  have o: "retry ?runO (retries fetcher) = Inr found"
    using lib works unfolding pRetryContract_def by simp
  let ?kF = "getCacheKey optionsKey (Provider.name pFail) query options"
  let ?kO = "getCacheKey optionsKey (Provider.name pOk) query options"
  let ?on = "hasCache fetcher \<and> cacheEnabled fetcher"
  let ?store' = "if ?on then store(?kO \<mapsto> found) else store"
  have missF: "\<not> ?on \<or> store ?kF = None"
  proof (cases ?on)
    case True
    then have w: "cacheWrittenBy optionsKey store pFail query options" using cache by simp
    have "store ?kF = None"
    proof (cases "store ?kF")
      case None
      then show ?thesis .
    next
      case (Some cached)
      with w obtain n where "search pFail n query options = Inr cached"
        unfolding cacheWrittenBy_def by auto
      moreover have "isl (search pFail n query options)" using fails by simp
      ultimately show ?thesis by simp
    qed
    then show ?thesis by simp
  next
    case False
    then show ?thesis by simp
  qed
  have hitO: "\<not> ?on \<or> store ?kO = None \<or> store ?kO = Some found"
  proof (cases ?on)
    case True
    then have w: "cacheWrittenBy optionsKey store pOk query options" using cache by simp
    have "store ?kO = None \<or> store ?kO = Some found"
    proof (cases "store ?kO")
      case None
      then show ?thesis by simp
    next
      case (Some cached)
      with w obtain n where "search pOk n query options = Inr cached"
        unfolding cacheWrittenBy_def by auto
      with works have "cached = found" by simp
      with Some show ?thesis by simp
    qed
    then show ?thesis by simp
  next
    case False
    then show ?thesis by simp
  qed
  have kne: "?on \<Longrightarrow> ?kF \<noteq> ?kO"
    using cache getCacheKey_name [of "Provider.name pFail" "Provider.name pOk" optionsKey query options query options]
    by simp
  have missF': "\<not> ?on \<or> ?store' ?kF = None"
    using missF kne by auto
  have tF: "providerTask retry optionsKey fetcher query options pFail (acc, s) =
            (acc \<lparr> errors := errors acc @ [\<lparr> provider = Provider.name pFail, message = errorMessage e,
                                               statusCode = errorStatusCode e \<rparr>] \<rparr>, s)"
    if "\<not> ?on \<or> s ?kF = None" for acc s
    using fetchFromProvider_fail
            [where p = pFail and store = s and optionsKey = optionsKey and fetcher = fetcher
               and query = query and options = options and retry = retry, OF e that]
    by (simp add: providerTask_def)
  have tO: "providerTask retry optionsKey fetcher query options pOk (acc, store) =
            (acc \<lparr> results := results acc @ found, providers := providers acc @ [Provider.name pOk] \<rparr>,
             ?store')" for acc
    using fetchFromProvider_ok
            [where p = pOk and store = store and optionsKey = optionsKey and fetcher = fetcher
               and query = query and options = options and retry = retry, OF o found hitO]
    by (simp add: providerTask_def)
  from order show ?thesis
  proof
    assume s: "settled = [pFail, pOk]"
    have "fetchAll retry optionsKey fetcher store settled query options =
            Inr (\<lparr> results = found,
                    errors = [\<lparr> provider = Provider.name pFail, message = errorMessage e,
                                statusCode = errorStatusCode e \<rparr>],
                    providers = [Provider.name pOk] \<rparr>, ?store')"
      using conc by (simp add: fetchAll_def s tF [where s = store, OF missF] tO)
    with e show ?thesis by (intro exI [of _ e] exI [of _ ?store']) simp
  next
    assume s: "settled = [pOk, pFail]"
    have "fetchAll retry optionsKey fetcher store settled query options =
            Inr (\<lparr> results = found,
                    errors = [\<lparr> provider = Provider.name pFail, message = errorMessage e,
                                statusCode = errorStatusCode e \<rparr>],
                    providers = [Provider.name pOk] \<rparr>, ?store')"
      using conc by (simp add: fetchAll_def s tO tF [where s = ?store', OF missF'])
    with e show ?thesis by (intro exI [of _ e] exI [of _ ?store']) simp
  qed
qed

lemma sample_retry_failing:
  "pRetryWith samplePolicy (\<lambda>n. search failingProvider n ''typescript'' ()) 2
     = Inl (ThrownProviderError ''[serp] HTTP 500'' (Some 500))"
  by (simp add: pRetryWith_def pRetry.simps failingProvider_def samplePolicy_def numeral_2_eq_2)

lemma sample_retry_broken:
  "pRetryWith samplePolicy (\<lambda>n. search brokenProvider n ''typescript'' ()) 2
     = Inl (ThrownTypeError ''items is not iterable'')"
  by (simp add: pRetryWith_def pRetry.simps brokenProvider_def samplePolicy_def numeral_2_eq_2)

theorem fetchAll_isolates_failure_witness:
  "pRetryContract (pRetryWith samplePolicy :: SearchResult list retrier) \<and>
   1 \<le> concurrency cachingFetcher \<and>
   (\<forall>n. isl (search failingProvider n ''typescript'' ())) \<and>
   (\<forall>n. isl (search brokenProvider n ''typescript'' ())) \<and>
   (\<forall>n. search workingProvider n ''typescript'' () = Inr [githubResult]) \<and>
   hasCache cachingFetcher \<and> cacheEnabled cachingFetcher \<and>
   cacheWrittenBy noOptionsKey warmStore failingProvider ''typescript'' () \<and>
   cacheWrittenBy noOptionsKey warmStore workingProvider ''typescript'' () \<and>
   fst (projr (fetchAll (pRetryWith samplePolicy) noOptionsKey cachingFetcher warmStore
                 [failingProvider, workingProvider] ''typescript'' ()))
     = \<lparr> results = [githubResult],
         errors = [\<lparr> provider = serp, message = ''[serp] HTTP 500'', statusCode = Some 500 \<rparr>],
         providers = [brave] \<rparr> \<and>
   fst (projr (fetchAll (pRetryWith samplePolicy) noOptionsKey new_Fetcher Map.empty
                 [workingProvider, brokenProvider] ''typescript'' ()))
     = \<lparr> results = [githubResult],
         errors = [\<lparr> provider = rss, message = ''items is not iterable'', statusCode = None \<rparr>],
         providers = [brave] \<rparr>"
proof -
  have lib: "pRetryContract (pRetryWith samplePolicy :: SearchResult list retrier)"
    by (rule pRetryWith_contract)
  have c1: "1 \<le> concurrency cachingFetcher" and c2: "1 \<le> concurrency new_Fetcher"
    by (simp_all add: cachingFetcher_def new_Fetcher_def)
  have f1: "\<forall>n. isl (search failingProvider n ''typescript'' ())"
    by (simp add: failingProvider_def)
  have f2: "\<forall>n. isl (search brokenProvider n ''typescript'' ())"
    by (simp add: brokenProvider_def)
  have w: "\<forall>n. search workingProvider n ''typescript'' () = Inr [githubResult]"
    by (simp add: workingProvider_def)
  have ne: "[githubResult] \<noteq> []" by simp
  have on: "hasCache cachingFetcher \<and> cacheEnabled cachingFetcher"
    by (simp add: cachingFetcher_def)
  have wF: "cacheWrittenBy noOptionsKey warmStore failingProvider ''typescript'' ()"
    by (simp add: cacheWrittenBy_def warmStore_def failingProvider_def getCacheKey_def)
  have wO: "cacheWrittenBy noOptionsKey warmStore workingProvider ''typescript'' ()"
    by (simp add: cacheWrittenBy_def warmStore_def workingProvider_def)
  have h1: "hasCache cachingFetcher \<and> cacheEnabled cachingFetcher \<longrightarrow>
            Provider.name failingProvider \<noteq> Provider.name workingProvider \<and>
            cacheWrittenBy noOptionsKey warmStore failingProvider ''typescript'' () \<and>
            cacheWrittenBy noOptionsKey warmStore workingProvider ''typescript'' ()"
    using wF wO by (simp add: failingProvider_def workingProvider_def)
  have h2: "hasCache new_Fetcher \<and> cacheEnabled new_Fetcher \<longrightarrow>
            Provider.name brokenProvider \<noteq> Provider.name workingProvider \<and>
            cacheWrittenBy noOptionsKey Map.empty brokenProvider ''typescript'' () \<and>
            cacheWrittenBy noOptionsKey Map.empty workingProvider ''typescript'' ()"
    by (simp add: new_Fetcher_def)
  have o1: "[failingProvider, workingProvider] = [failingProvider, workingProvider] \<or>
            [failingProvider, workingProvider] = [workingProvider, failingProvider]"
    by simp
  have o2: "[workingProvider, brokenProvider] = [brokenProvider, workingProvider] \<or>
            [workingProvider, brokenProvider] = [workingProvider, brokenProvider]"
    by simp
  from fetchAll_isolates_failure [OF lib c1 f1 w ne h1 o1]
  obtain e store' where
    "pRetryWith samplePolicy (\<lambda>n. search failingProvider n ''typescript'' ()) (retries cachingFetcher) = Inl e"
    "fetchAll (pRetryWith samplePolicy) noOptionsKey cachingFetcher warmStore
       [failingProvider, workingProvider] ''typescript'' () =
       Inr (\<lparr> results = [githubResult],
               errors = [\<lparr> provider = Provider.name failingProvider, message = errorMessage e,
                           statusCode = errorStatusCode e \<rparr>],
               providers = [Provider.name workingProvider] \<rparr>, store')"
    by auto
  then have r1: "fst (projr (fetchAll (pRetryWith samplePolicy) noOptionsKey cachingFetcher warmStore
                 [failingProvider, workingProvider] ''typescript'' ()))
     = \<lparr> results = [githubResult],
         errors = [\<lparr> provider = serp, message = ''[serp] HTTP 500'', statusCode = Some 500 \<rparr>],
         providers = [brave] \<rparr>"
    using sample_retry_failing
    by (auto simp: cachingFetcher_def failingProvider_def workingProvider_def)
  from fetchAll_isolates_failure [OF lib c2 f2 w ne h2 o2]
  obtain e' store'' where
    "pRetryWith samplePolicy (\<lambda>n. search brokenProvider n ''typescript'' ()) (retries new_Fetcher) = Inl e'"
    "fetchAll (pRetryWith samplePolicy) noOptionsKey new_Fetcher Map.empty
       [workingProvider, brokenProvider] ''typescript'' () =
       Inr (\<lparr> results = [githubResult],
               errors = [\<lparr> provider = Provider.name brokenProvider, message = errorMessage e',
                           statusCode = errorStatusCode e' \<rparr>],
               providers = [Provider.name workingProvider] \<rparr>, store'')"
    by auto
  then have r2: "fst (projr (fetchAll (pRetryWith samplePolicy) noOptionsKey new_Fetcher Map.empty
                 [workingProvider, brokenProvider] ''typescript'' ()))
     = \<lparr> results = [githubResult],
         errors = [\<lparr> provider = rss, message = ''items is not iterable'', statusCode = None \<rparr>],
         providers = [brave] \<rparr>"
    using sample_retry_broken
    by (auto simp: new_Fetcher_def brokenProvider_def workingProvider_def)
  show ?thesis
    using lib c1 f1 f2 w on wF wO r1 r2 by simp
qed


subsection \<open>Refined queries\<close>

text \<open>
  Claim C8. For the original query "typescript", \<open>buildRefinedQueries\<close> on the selected terms
  "react" and "node" with the strategy \<open>expand\<close> returns the three queries
  "typescript react", "typescript node", "typescript react node", in this order.
\<close>

theorem buildRefinedQueries_expand_example:
  "buildRefinedQueries ''typescript'' [''react'', ''node''] expand =
     [''typescript react'', ''typescript node'', ''typescript react node'']"
  by (simp add: buildRefinedQueries_def newSet_def)

end
